theory Spec2Isabelle
  imports Complex_Main
begin

section \<open>The gradient energy tensor of vigra/gradient\_energy\_tensor.hxx\<close>

text \<open>
  The header defines one function template, \<open>gradientEnergyTensor\<close>, and a
  forwarding overload that takes argument objects. Sample values of the working
  type \<open>TmpType\<close> (the \<open>RealPromote\<close> of the source's sample type) are
  modelled as real numbers.
\<close>

subsection \<open>Data\<close>

text \<open>
  A two-dimensional iterator is a position: the source reads and advances its
  members \<open>x\<close> and \<open>y\<close> only. They are called \<open>px\<close> and \<open>py\<close> here.
  Coordinates and their differences are integers; no image is large enough for
  the \<open>int\<close> of the source to wrap around.
\<close>

record iter2d =
  px :: int
  py :: int

text \<open>
  Modelled from the spec: \<open>BasicImage\<close> (vigra/basicimage.hxx) is not in the
  header. A scalar field is a dense array of dimensions W x H; its scan-order
  iterator \<open>begin()\<close> walks the samples row by row, so pixel \<open>(x, y)\<close> is sample
  number \<open>y * W + x\<close>.
\<close>

record TmpImage =
  width :: int
  height :: int
  data :: "real list"

definition pixel :: "TmpImage \<Rightarrow> int \<Rightarrow> int \<Rightarrow> real" where
  "pixel img x y = data img ! nat (y * width img + x)"

text \<open>
  Modelled from the spec: the constructor \<open>BasicImage(w, h)\<close> is not in the
  header. This is the image \<open>TmpImage img(w, h)\<close> once the constructor has
  returned: a field of dimensions \<open>w\<close> by \<open>h\<close>. Its samples are taken as zero;
  each of them is overwritten by the library function that fills the image
  before the header reads it.
\<close>

definition newImage :: "int \<Rightarrow> int \<Rightarrow> TmpImage" where
  "newImage w h = \<lparr>width = w, height = h, data = replicate (nat w * nat h) 0\<rparr>"

text \<open>
  The destination as the accessor \<open>dest\<close> shows it: \<open>bands\<close> is what
  \<open>dest.size(i)\<close> returns, \<open>comp d x y k\<close> is component \<open>k\<close> of the pixel at
  position \<open>(x, y)\<close>. The function receives no lower right corner of the
  destination, so the model has none either. Band values are real numbers like
  the samples; \<open>setComponent(v, d, k)\<close> stores \<open>v\<close> in band \<open>k\<close> of the pixel at
  \<open>d\<close>.
\<close>

record TensorImage =
  bands :: nat
  comp :: "int \<Rightarrow> int \<Rightarrow> nat \<Rightarrow> real"

definition setComponent :: "real \<Rightarrow> iter2d \<Rightarrow> nat \<Rightarrow> TensorImage \<Rightarrow> TensorImage" where
  "setComponent v d k dest =
     dest\<lparr>comp := (\<lambda>x y j. if x = px d \<and> y = py d \<and> j = k then v else comp dest x y j)\<rparr>"

text \<open>
  What a call can raise: the violation that \<open>vigra_precondition\<close> throws, with its
  message, or whatever one of the library functions called raises, passed on
  unchanged.
\<close>

datatype 'e failure = PreconditionViolation string | Propagated 'e

subsection \<open>The library functions the header calls\<close>

text \<open>
  Modelled from the spec: \<open>convolveImage\<close> (vigra/convolution.hxx), the
  constructor of \<open>BasicImage\<close> and \<open>combineTwoImages\<close> (vigra/combineimages.hxx)
  are not in the header. The first two are parameters of the model:
  \<^item> \<open>construct w h\<close> is \<open>None\<close> when \<open>BasicImage(w, h)\<close> returns an image and
    \<open>Some e\<close> when it raises \<open>e\<close>;
  \<^item> \<open>convolve kx ky img\<close> is the separable convolution of \<open>img\<close> with the kernel
    \<open>kx\<close> along x and the kernel \<open>ky\<close> along y: \<open>Inl e\<close> when it raises \<open>e\<close>,
    \<open>Inr f\<close> when it returns, \<open>f x y\<close> being the sample it stores at \<open>(x, y)\<close>
    of its destination. Border policy, normalisation and the kernels themselves
    (the type \<open>'k\<close>) are its own.
\<close>

record ('k, 'e) library =
  construct :: "int \<Rightarrow> int \<Rightarrow> 'e option"
  convolve :: "'k \<Rightarrow> 'k \<Rightarrow> TmpImage \<Rightarrow> 'e + (int \<Rightarrow> int \<Rightarrow> real)"

text \<open>
  Modelled from the spec: how \<open>convolveImage\<close> and \<open>combineTwoImages\<close>, which
  are not in the header, store their result through \<open>destImage(img)\<close>: a region
  of \<open>w\<close> by \<open>h\<close> samples at the upper left corner of the destination image;
  the other samples are left alone.
\<close>

definition writeRegion :: "int \<Rightarrow> int \<Rightarrow> (int \<Rightarrow> int \<Rightarrow> real) \<Rightarrow> TmpImage \<Rightarrow> TmpImage" where
  "writeRegion w h f img =
     img\<lparr>data :=
       map (\<lambda>i. let x = int i mod width img; y = int i div width img
                in if x < w \<and> y < h then f x y else data img ! i)
           [0 ..< length (data img)]\<rparr>"

text \<open>
  Modelled from the spec: the argument object
  \<open>srcIterRange(supperleft, slowerright, src)\<close> is not in the header. These are
  the samples a library function can read through it, as a field of its own:
  sample \<open>(x, y)\<close> is what \<open>src\<close> reads at \<open>supperleft + (x, y)\<close>.
  \<open>srcImageRange(img)\<close> is the image \<open>img\<close> itself.
\<close>

definition srcIterRange :: "iter2d \<Rightarrow> iter2d \<Rightarrow> (int \<Rightarrow> int \<Rightarrow> real) \<Rightarrow> TmpImage" where
  "srcIterRange ul lr src =
     (let w = px lr - px ul; h = py lr - py ul
      in \<lparr>width = w, height = h,
          data = map (\<lambda>i. src (px ul + int i mod w) (py ul + int i div w))
                     [0 ..< nat w * nat h]\<rparr>)"

text \<open>
  Modelled from the spec: \<open>convolveImage(src, dest, kx, ky)\<close> is not in the
  header. It filters the source with \<open>kx\<close> along x and \<open>ky\<close> along y and stores
  a result of the dimensions of the source in the destination, or raises.
\<close>

definition convolveImage ::
    "('k, 'e) library \<Rightarrow> TmpImage \<Rightarrow> TmpImage \<Rightarrow> 'k \<Rightarrow> 'k \<Rightarrow> 'e + TmpImage" where
  "convolveImage lib src dst kx ky =
     (case convolve lib kx ky src of
        Inl e \<Rightarrow> Inl e
      | Inr f \<Rightarrow> Inr (writeRegion (width src) (height src) f dst))"

text \<open>
  Modelled from the spec: \<open>combineTwoImages(src1, src2, dest, f)\<close> is not in the
  header. It applies the binary operator \<open>f\<close> per pixel across the two sources
  and stores the result in the destination.
\<close>

definition combineTwoImages ::
    "TmpImage \<Rightarrow> TmpImage \<Rightarrow> TmpImage \<Rightarrow> (real \<Rightarrow> real \<Rightarrow> real) \<Rightarrow> TmpImage" where
  "combineTwoImages a b dst f =
     writeRegion (width a) (height a) (\<lambda>x y. f (pixel a x y) (pixel b x y)) dst"

subsection \<open>The derivative cascade (lines 126 to 141)\<close>

record fields =
  gx :: TmpImage
  gy :: TmpImage
  gxx :: TmpImage
  gxy :: TmpImage
  gyy :: TmpImage
  laplace :: TmpImage
  gx3 :: TmpImage
  gy3 :: TmpImage

definition bindE :: "'e + 'a \<Rightarrow> ('a \<Rightarrow> 'e + 'b) \<Rightarrow> 'e + 'b" where
  "bindE m f = (case m of Inl e \<Rightarrow> Inl e | Inr v \<Rightarrow> f v)"

text \<open>
  The eight images of lines 122 to 124 are constructed with the same \<open>(w, h)\<close>,
  then filled one after the other; the first call that raises ends the cascade.
\<close>

definition cascade ::
    "('k, 'e) library \<Rightarrow> TmpImage \<Rightarrow> int \<Rightarrow> int \<Rightarrow> 'k \<Rightarrow> 'k \<Rightarrow> 'e + fields" where
  "cascade lib input w h derivKernel smoothKernel =
     bindE (convolveImage lib input (newImage w h) derivKernel smoothKernel) (\<lambda>i_gx.
     bindE (convolveImage lib input (newImage w h) smoothKernel derivKernel) (\<lambda>i_gy.
     bindE (convolveImage lib i_gx (newImage w h) derivKernel smoothKernel) (\<lambda>i_gxx.
     bindE (convolveImage lib i_gx (newImage w h) smoothKernel derivKernel) (\<lambda>i_gxy.
     bindE (convolveImage lib i_gy (newImage w h) smoothKernel derivKernel) (\<lambda>i_gyy.
     let i_laplace = combineTwoImages i_gxx i_gyy (newImage w h) (+) in
     bindE (convolveImage lib i_laplace (newImage w h) derivKernel smoothKernel) (\<lambda>i_gx3.
     bindE (convolveImage lib i_laplace (newImage w h) smoothKernel derivKernel) (\<lambda>i_gy3.
     Inr \<lparr>gx = i_gx, gy = i_gy, gxx = i_gxx, gxy = i_gxy, gyy = i_gyy,
          laplace = i_laplace, gx3 = i_gx3, gy3 = i_gy3\<rparr>)))))))"

subsection \<open>The tensor assembly (lines 142 to 158)\<close>

text \<open>Modelled from the spec: \<open>sq\<close> is not in the header; it is the square.\<close>

definition sq :: "real \<Rightarrow> real" where
  "sq v = v * v"

text \<open>
  The seven scan-order iterators \<open>gxi\<close>, ..., \<open>gy3i\<close> start at \<open>begin()\<close> and are
  incremented together, so one sample number \<open>i\<close> stands for all of them.
  The three assignments of the inner loop body:
\<close>

definition t11 :: "fields \<Rightarrow> nat \<Rightarrow> real" where
  "t11 F i = sq (data (gxx F) ! i) + sq (data (gxy F) ! i) - data (gx F) ! i * data (gx3 F) ! i"

definition t12 :: "fields \<Rightarrow> nat \<Rightarrow> real" where
  "t12 F i = - data (gxy F) ! i * (data (gxx F) ! i + data (gyy F) ! i)
             + 0.5 * (data (gx F) ! i * data (gy3 F) ! i + data (gy F) ! i * data (gx3 F) ! i)"

definition t22 :: "fields \<Rightarrow> nat \<Rightarrow> real" where
  "t22 F i = sq (data (gxy F) ! i) + sq (data (gyy F) ! i) - data (gy F) ! i * data (gy3 F) ! i"

definition body :: "fields \<Rightarrow> nat \<Rightarrow> iter2d \<Rightarrow> TensorImage \<Rightarrow> TensorImage" where
  "body F i d dest =
     setComponent (t22 F i) d 2 (setComponent (t12 F i) d 1 (setComponent (t11 F i) d 0 dest))"

function inner_loop ::
    "fields \<Rightarrow> int \<Rightarrow> int \<Rightarrow> iter2d \<Rightarrow> nat \<Rightarrow> TensorImage \<Rightarrow> nat \<times> TensorImage" where
  "inner_loop F w x d i dest =
     (if x < w
      then inner_loop F w (x + 1) (d\<lparr>px := px d + 1\<rparr>) (i + 1) (body F i d dest)
      else (i, dest))"
  by pat_completeness auto
termination
  by (relation "measure (\<lambda>(F, w, x, d, i, dest). nat (w - x))") auto

declare inner_loop.simps [simp del]

function outer_loop ::
    "fields \<Rightarrow> int \<Rightarrow> int \<Rightarrow> int \<Rightarrow> iter2d \<Rightarrow> nat \<Rightarrow> TensorImage \<Rightarrow> TensorImage" where
  "outer_loop F w h y dupperleft i dest =
     (if y < h
      then (case inner_loop F w 0 dupperleft i dest of
              (i', dest') \<Rightarrow>
                outer_loop F w h (y + 1) (dupperleft\<lparr>py := py dupperleft + 1\<rparr>) i' dest')
      else dest)"
  by pat_completeness auto
termination
  by (relation "measure (\<lambda>(F, w, h, y, d, i, dest). nat (h - y))") auto

declare outer_loop.simps [simp del]

subsection \<open>gradientEnergyTensor (lines 107 to 159)\<close>

text \<open>
  The result is what the call raised, if anything, and the destination as the
  call leaves it. The eight constructors of lines 122 to 124 get the same
  \<open>(w, h)\<close>, so the first of them decides whether a constructor raises.
\<close>

definition gradientEnergyTensor ::
    "('k, 'e) library \<Rightarrow> iter2d \<Rightarrow> iter2d \<Rightarrow> (int \<Rightarrow> int \<Rightarrow> real) \<Rightarrow> iter2d \<Rightarrow> TensorImage
       \<Rightarrow> 'k \<Rightarrow> 'k \<Rightarrow> 'e failure option \<times> TensorImage" where
  "gradientEnergyTensor lib supperleft slowerright src dupperleft dest derivKernel smoothKernel =
     (if bands dest \<noteq> 3
      then (Some (PreconditionViolation
                    ''gradientEnergyTensor(): output image must have 3 bands.''), dest)
      else
        let w = px slowerright - px supperleft;
            h = py slowerright - py supperleft
        in case construct lib w h of
             Some e \<Rightarrow> (Some (Propagated e), dest)
           | None \<Rightarrow>
               (case cascade lib (srcIterRange supperleft slowerright src) w h
                       derivKernel smoothKernel of
                  Inl e \<Rightarrow> (Some (Propagated e), dest)
                | Inr F \<Rightarrow> (None, outer_loop F w h 0 dupperleft 0 dest)))"

subsection \<open>The overload on argument objects (lines 161 to 170)\<close>

text \<open>
  The argument objects: a \<open>triple\<close> has the members \<open>first\<close>, \<open>second\<close> and
  \<open>third\<close>; a \<open>pair\<close> is a pair, its members are \<open>fst\<close> and \<open>snd\<close> here.
\<close>

record ('a, 'b, 'c) triple =
  first :: 'a
  second :: 'b
  third :: 'c

definition gradientEnergyTensor_args ::
    "('k, 'e) library \<Rightarrow> (iter2d, iter2d, int \<Rightarrow> int \<Rightarrow> real) triple \<Rightarrow> iter2d \<times> TensorImage
       \<Rightarrow> 'k \<Rightarrow> 'k \<Rightarrow> 'e failure option \<times> TensorImage" where
  "gradientEnergyTensor_args lib src dest derivKernel smoothKernel =
     gradientEnergyTensor lib (first src) (second src) (third src)
       (fst dest) (snd dest) derivKernel smoothKernel"

subsection \<open>The cascade in the spec's words\<close>

text \<open>
  Section 6 of the spec: \<open>convolveSeparable(image, kernelAlongX, kernelAlongY)\<close>
  returns a new field of the dimensions of its input, \<open>addPointwise(a, b)\<close> the
  element-wise sum. Section 4.1 lists the eight steps; \<open>spec_cascade\<close> follows
  that list, to be compared with \<open>cascade\<close> above.
\<close>

definition convolveSeparable ::
    "('k, 'e) library \<Rightarrow> TmpImage \<Rightarrow> 'k \<Rightarrow> 'k \<Rightarrow> 'e + TmpImage" where
  "convolveSeparable lib img kernelAlongX kernelAlongY =
     (case convolve lib kernelAlongX kernelAlongY img of
        Inl e \<Rightarrow> Inl e
      | Inr f \<Rightarrow>
          Inr \<lparr>width = width img, height = height img,
               data = map (\<lambda>i. f (int i mod width img) (int i div width img))
                          [0 ..< nat (width img) * nat (height img)]\<rparr>)"

definition addPointwise :: "TmpImage \<Rightarrow> TmpImage \<Rightarrow> TmpImage" where
  "addPointwise a b =
     \<lparr>width = width a, height = height a, data = map2 (+) (data a) (data b)\<rparr>"

definition spec_cascade :: "('k, 'e) library \<Rightarrow> TmpImage \<Rightarrow> 'k \<Rightarrow> 'k \<Rightarrow> 'e + fields" where
  "spec_cascade lib input D S =
     bindE (convolveSeparable lib input D S) (\<lambda>s_gx.
     bindE (convolveSeparable lib input S D) (\<lambda>s_gy.
     bindE (convolveSeparable lib s_gx D S) (\<lambda>s_gxx.
     bindE (convolveSeparable lib s_gx S D) (\<lambda>s_gxy.
     bindE (convolveSeparable lib s_gy S D) (\<lambda>s_gyy.
     let s_laplace = addPointwise s_gxx s_gyy in
     bindE (convolveSeparable lib s_laplace D S) (\<lambda>s_gx3.
     bindE (convolveSeparable lib s_laplace S D) (\<lambda>s_gy3.
     Inr \<lparr>gx = s_gx, gy = s_gy, gxx = s_gxx, gxy = s_gxy, gyy = s_gyy,
          laplace = s_laplace, gx3 = s_gx3, gy3 = s_gy3\<rparr>)))))))"

subsection \<open>Notions the statements use\<close>

text \<open>Band \<open>k\<close> of the tensor that the loop body stores for sample number \<open>i\<close>.\<close>

definition tensor :: "fields \<Rightarrow> nat \<Rightarrow> nat \<Rightarrow> real" where
  "tensor F i k = (if k = 0 then t11 F i else if k = 1 then t12 F i else t22 F i)"

text \<open>The field of dimensions \<open>w\<close> by \<open>h\<close> whose samples are all \<open>c\<close>.\<close>

definition constImage :: "real \<Rightarrow> int \<Rightarrow> int \<Rightarrow> TmpImage" where
  "constImage c w h = \<lparr>width = w, height = h, data = replicate (nat w * nat h) c\<rparr>"

text \<open>
  A field has the dimensions \<open>w\<close> by \<open>h\<close>: its members say so and it holds that
  many samples.
\<close>

definition has_dims :: "TmpImage \<Rightarrow> int \<Rightarrow> int \<Rightarrow> bool" where
  "has_dims img w h \<longleftrightarrow>
     width img = w \<and> height img = h \<and> length (data img) = nat w * nat h"

text \<open>
  The convolution with \<open>kx\<close> along x and \<open>ky\<close> along y returns on \<open>img\<close> and
  stores zero at every pixel of the \<open>w\<close> by \<open>h\<close> region.
\<close>

definition zeroes_out ::
    "('k, 'e) library \<Rightarrow> 'k \<Rightarrow> 'k \<Rightarrow> TmpImage \<Rightarrow> int \<Rightarrow> int \<Rightarrow> bool" where
  "zeroes_out lib kx ky img w h =
     (case convolve lib kx ky img of
        Inl e \<Rightarrow> False
      | Inr f \<Rightarrow> \<forall>x \<in> {0 ..< w}. \<forall>y \<in> {0 ..< h}. f x y = 0)"

text \<open>
  The derivative kernel \<open>D\<close> annihilates constants, whichever axis it runs along,
  with \<open>S\<close> on the other axis.
\<close>

definition annihilates_constants ::
    "('k, 'e) library \<Rightarrow> 'k \<Rightarrow> 'k \<Rightarrow> int \<Rightarrow> int \<Rightarrow> bool" where
  "annihilates_constants lib D S w h \<longleftrightarrow>
     (\<forall>c. zeroes_out lib D S (constImage c w h) w h \<and>
          zeroes_out lib S D (constImage c w h) w h)"

text \<open>Position \<open>(X, Y)\<close> lies in the \<open>w\<close> by \<open>h\<close> region whose upper left corner is \<open>d\<close>.\<close>

definition in_region :: "iter2d \<Rightarrow> int \<Rightarrow> int \<Rightarrow> int \<Rightarrow> int \<Rightarrow> bool" where
  "in_region d w h X Y \<longleftrightarrow> px d \<le> X \<and> X < px d + w \<and> py d \<le> Y \<and> Y < py d + h"

text \<open>The eight fields of dimensions \<open>w\<close> by \<open>h\<close> that are zero everywhere.\<close>

definition zero_fields :: "int \<Rightarrow> int \<Rightarrow> fields" where
  "zero_fields w h =
     \<lparr>gx = newImage w h, gy = newImage w h, gxx = newImage w h, gxy = newImage w h,
      gyy = newImage w h, laplace = newImage w h, gx3 = newImage w h, gy3 = newImage w h\<rparr>"

text \<open>The message of the precondition in line 114.\<close>

definition three_bands_message :: string where
  "three_bands_message = ''gradientEnergyTensor(): output image must have 3 bands.''"

subsection \<open>A reference library and sample data\<close>

text \<open>
  One library the header can be compiled against, used to run the statements
  below on data. Modelled from the spec: a kernel is a sequence of taps with a
  centre offset (\<open>kleft\<close> is the coordinate of the first tap). The convolution
  repeats the border sample, refuses a line shorter than the kernel, and the
  image constructor refuses a negative dimension.
\<close>

record Kernel1D =
  kleft :: int
  ktaps :: "real list"

definition clampi :: "int \<Rightarrow> int \<Rightarrow> int" where
  "clampi n i = max 0 (min (n - 1) i)"

definition tapsum :: "Kernel1D \<Rightarrow> (int \<Rightarrow> real) \<Rightarrow> real" where
  "tapsum k g =
     sum_list (map (\<lambda>j. ktaps k ! j * g (kleft k + int j)) [0 ..< length (ktaps k)])"

definition ref_convolve ::
    "Kernel1D \<Rightarrow> Kernel1D \<Rightarrow> TmpImage \<Rightarrow> string + (int \<Rightarrow> int \<Rightarrow> real)" where
  "ref_convolve kx ky img =
     (if width img < int (length (ktaps kx)) \<or> height img < int (length (ktaps ky))
      then Inl ''kernel longer than line''
      else Inr (\<lambda>x y. tapsum ky (\<lambda>j. tapsum kx (\<lambda>i.
                  pixel img (clampi (width img) (x - i)) (clampi (height img) (y - j))))))"

definition ref_library :: "(Kernel1D, string) library" where
  "ref_library =
     \<lparr>construct = (\<lambda>w h. if 0 \<le> w \<and> 0 \<le> h then None
                          else Some ''width and height must be >= 0''),
      convolve = ref_convolve\<rparr>"

text \<open>A library in which every constructor and every convolution raises.\<close>

definition failing_library :: "(Kernel1D, string) library" where
  "failing_library =
     \<lparr>construct = (\<lambda>w h. Some ''out of memory''),
      convolve = (\<lambda>kx ky img. Inl ''no convolution'')\<rparr>"

text \<open>
  A library that accepts every region, the empty one too: its convolution is the
  one with single-tap kernels, which scales each sample by the two taps.
\<close>

definition scaling_library :: "(real, string) library" where
  "scaling_library =
     \<lparr>construct = (\<lambda>w h. None),
      convolve = (\<lambda>kx ky img. Inr (\<lambda>x y. ky * (kx * pixel img x y)))\<rparr>"

text \<open>The kernels of the header's documentation.\<close>

definition grad :: Kernel1D where
  "grad = \<lparr>kleft = - 1, ktaps = [0.5, 0, - 0.5]\<rparr>"

definition smooth :: Kernel1D where
  "smooth = \<lparr>kleft = - 1, ktaps = [3 / 16, 10 / 16, 3 / 16]\<rparr>"

definition sample_src :: "int \<Rightarrow> int \<Rightarrow> real" where
  "sample_src x y = of_int (8 * x * x + 16 * x * y)"

text \<open>The same samples on the 3 by 3 region at the origin, others around it.\<close>

definition sample_src_padded :: "int \<Rightarrow> int \<Rightarrow> real" where
  "sample_src_padded x y =
     (if 0 \<le> x \<and> x < 3 \<and> 0 \<le> y \<and> y < 3 then sample_src x y else 1000)"

definition sample_dest :: "nat \<Rightarrow> TensorImage" where
  "sample_dest n = \<lparr>bands = n, comp = (\<lambda>x y k. 7)\<rparr>"

definition pos :: "int \<Rightarrow> int \<Rightarrow> iter2d" where
  "pos x y = \<lparr>px = x, py = y\<rparr>"

text \<open>
  The seven fields (and the Laplacian) of \<open>sample_src\<close> on the 3 by 3 region at
  the origin, and the destination after the call on them.
\<close>

definition sample_fields :: fields where
  "sample_fields =
     \<lparr>gx = \<lparr>width = 3, height = 3,
             data = [11 / 2, 19, 27 / 2, 12, 32, 20, 37 / 2, 45, 53 / 2]\<rparr>,
      gy = \<lparr>width = 3, height = 3,
             data = [3 / 2, 8, 29 / 2, 3, 16, 29, 3 / 2, 8, 29 / 2]\<rparr>,
      gxx = \<lparr>width = 3, height = 3,
              data = [471 / 64, 4, - (215 / 64), 10, 4, - 6, 809 / 64, 4, - (553 / 64)]\<rparr>,
      gxy = \<lparr>width = 3, height = 3,
              data = [247 / 64, 169 / 32, 247 / 64, 247 / 32, 169 / 16, 247 / 32,
                      247 / 64, 169 / 32, 247 / 64]\<rparr>,
      gyy = \<lparr>width = 3, height = 3,
              data = [87 / 64, 4, 425 / 64, 0, 0, 0, - (87 / 64), - 4, - (425 / 64)]\<rparr>,
      laplace = \<lparr>width = 3, height = 3,
                  data = [279 / 32, 8, 105 / 32, 10, 4, - 6, 361 / 32, 0, - (489 / 32)]\<rparr>,
      gx3 = \<lparr>width = 3, height = 3,
              data = [- (875 / 1024), - (1899 / 512), - (2923 / 1024), - 3, - 8, - 5,
                      - (5269 / 1024), - (6293 / 512), - (7317 / 1024)]\<rparr>,
      gy3 = \<lparr>width = 3, height = 3,
              data = [149 / 1024, - 2, - (4245 / 1024), 149 / 512, - 4, - (4245 / 512),
                      149 / 1024, - 2, - (4245 / 1024)]\<rparr>\<rparr>"

definition sample_out :: TensorImage where
  "sample_out =
     snd (gradientEnergyTensor ref_library (pos 0 0) (pos 3 3) sample_src
            (pos 10 20) (sample_dest 3) grad smooth)"



section \<open>Facts about the model\<close>

subsection \<open>Images\<close>

lemma has_dims_newImage: "has_dims (newImage w h) w h"
  by (simp add: has_dims_def newImage_def)

lemma has_dims_constImage: "has_dims (constImage c w h) w h"
  by (simp add: has_dims_def constImage_def)

lemma newImage_constImage: "newImage w h = constImage 0 w h"
  by (simp add: newImage_def constImage_def)

lemma has_dims_writeRegion: "has_dims img w h \<Longrightarrow> has_dims (writeRegion w' h' f img) w h"
  by (simp add: has_dims_def writeRegion_def)

lemma sample_coords:
  assumes "i < nat w * nat h"
  shows "0 \<le> int i mod w" "int i mod w < w" "0 \<le> int i div w" "int i div w < h"
proof -
  have w: "0 < w" using assms by (cases "0 < w") auto
  have h: "0 < h" using assms by (cases "0 < h") auto
  show "0 \<le> int i mod w" "int i mod w < w" using w by simp_all
  show "0 \<le> int i div w" using w by (simp add: pos_imp_zdiv_nonneg_iff)
  have "i div nat w < nat h" using assms by (simp add: less_mult_imp_div_less mult.commute)
  then have "int (i div nat w) < h" using h by linarith
  moreover have "int (i div nat w) = int i div w" using w by (simp add: zdiv_int)
  ultimately show "int i div w < h" by simp
qed

lemma sample_number:
  assumes "0 \<le> x" "x < w" "0 \<le> y" "y < h"
  shows "nat (y * w + x) < nat w * nat h"
    and "int (nat (y * w + x)) mod w = x"
    and "int (nat (y * w + x)) div w = y"
proof -
  have nn: "0 \<le> y * w + x" using assms by simp
  have "y * w + x < h * w"
  proof -
    have "y + 1 \<le> h" using assms by simp
    then have "(y + 1) * w \<le> h * w" using assms by (intro mult_right_mono) auto
    then show ?thesis using assms by (simp add: algebra_simps)
  qed
  then have "nat (y * w + x) < nat (h * w)" using nn by linarith
  also have "nat (h * w) = nat w * nat h" using assms by (simp add: nat_mult_distrib mult.commute)
  finally show "nat (y * w + x) < nat w * nat h" .
  show "int (nat (y * w + x)) mod w = x" using nn assms by simp
  show "int (nat (y * w + x)) div w = y" using nn assms by simp
qed

lemma pixel_writeRegion:
  assumes "has_dims img w h" "0 \<le> x" "x < w" "0 \<le> y" "y < h"
  shows "pixel (writeRegion w h f img) x y = f x y"
proof -
  have len: "length (data img) = nat w * nat h" and wd: "width img = w"
    using assms(1) by (simp_all add: has_dims_def)
  note n = sample_number[OF assms(2-5)]
  have "pixel (writeRegion w h f img) x y = data (writeRegion w h f img) ! nat (y * w + x)"
    by (simp add: pixel_def writeRegion_def wd)
  also have "\<dots> = f x y"
    using n assms by (simp add: writeRegion_def len wd Let_def)
  finally show ?thesis .
qed

lemma writeRegion_cong:
  assumes "has_dims img w h"
    and "\<And>x y. 0 \<le> x \<Longrightarrow> x < w \<Longrightarrow> 0 \<le> y \<Longrightarrow> y < h \<Longrightarrow> f x y = g x y"
  shows "writeRegion w h f img = writeRegion w h g img"
proof -
  have len: "length (data img) = nat w * nat h" and wd: "width img = w"
    using assms(1) by (simp_all add: has_dims_def)
  have "map (\<lambda>i. let x = int i mod width img; y = int i div width img
                in if x < w \<and> y < h then f x y else data img ! i) [0 ..< length (data img)]
      = map (\<lambda>i. let x = int i mod width img; y = int i div width img
                in if x < w \<and> y < h then g x y else data img ! i) [0 ..< length (data img)]"
  proof (rule map_cong[OF refl])
    fix i assume "i \<in> set [0 ..< length (data img)]"
    then have i: "i < nat w * nat h" using len by simp
    show "(let x = int i mod width img; y = int i div width img
                in if x < w \<and> y < h then f x y else data img ! i)
        = (let x = int i mod width img; y = int i div width img
                in if x < w \<and> y < h then g x y else data img ! i)"
      using sample_coords[OF i] assms(2) by (simp add: wd Let_def)
  qed
  then show ?thesis by (simp add: writeRegion_def)
qed

lemma data_writeRegion_nth:
  "i < length (data img) \<Longrightarrow>
   data (writeRegion w h f img) ! i =
     (if int i mod width img < w \<and> int i div width img < h
      then f (int i mod width img) (int i div width img) else data img ! i)"
  by (simp add: writeRegion_def Let_def)

lemma writeRegion_const:
  assumes "\<And>x y. 0 \<le> x \<Longrightarrow> x < w \<Longrightarrow> 0 \<le> y \<Longrightarrow> y < h \<Longrightarrow> f x y = c"
  shows "writeRegion w h f (newImage w h) = constImage c w h"
proof -
  have "data (writeRegion w h f (newImage w h)) = replicate (nat w * nat h) c"
  proof (rule nth_equalityI)
    show "length (data (writeRegion w h f (newImage w h))) = length (replicate (nat w * nat h) c)"
      by (simp add: writeRegion_def newImage_def)
  next
    fix i assume "i < length (data (writeRegion w h f (newImage w h)))"
    then have i: "i < nat w * nat h" by (simp add: writeRegion_def newImage_def)
    then have "i < length (data (newImage w h))" by (simp add: newImage_def)
    from data_writeRegion_nth[OF this, of w h f]
    have "data (writeRegion w h f (newImage w h)) ! i = f (int i mod w) (int i div w)"
      using sample_coords[OF i] by (simp add: newImage_def)
    also have "\<dots> = c" using sample_coords[OF i] assms by simp
    finally show "data (writeRegion w h f (newImage w h)) ! i = replicate (nat w * nat h) c ! i"
      using i by simp
  qed
  then show ?thesis by (simp add: writeRegion_def newImage_def constImage_def)
qed

lemma srcIterRange_dims:
  "has_dims (srcIterRange ul lr src) (px lr - px ul) (py lr - py ul)"
  by (simp add: srcIterRange_def has_dims_def Let_def)

lemma srcIterRange_cong:
  assumes "\<And>x y. 0 \<le> x \<Longrightarrow> x < px lr - px ul \<Longrightarrow> 0 \<le> y \<Longrightarrow> y < py lr - py ul
             \<Longrightarrow> src (px ul + x) (py ul + y) = src' (px ul + x) (py ul + y)"
  shows "srcIterRange ul lr src = srcIterRange ul lr src'"
proof -
  have "map (\<lambda>i. src (px ul + int i mod (px lr - px ul)) (py ul + int i div (px lr - px ul)))
            [0 ..< nat (px lr - px ul) * nat (py lr - py ul)]
      = map (\<lambda>i. src' (px ul + int i mod (px lr - px ul)) (py ul + int i div (px lr - px ul)))
            [0 ..< nat (px lr - px ul) * nat (py lr - py ul)]"
  proof (rule map_cong[OF refl])
    fix i assume "i \<in> set [0 ..< nat (px lr - px ul) * nat (py lr - py ul)]"
    then have i: "i < nat (px lr - px ul) * nat (py lr - py ul)" by simp
    show "src (px ul + int i mod (px lr - px ul)) (py ul + int i div (px lr - px ul))
        = src' (px ul + int i mod (px lr - px ul)) (py ul + int i div (px lr - px ul))"
      using sample_coords[OF i] assms by simp
  qed
  then show ?thesis by (simp add: srcIterRange_def Let_def)
qed

lemma srcIterRange_const:
  assumes "\<And>x y. 0 \<le> x \<Longrightarrow> x < px lr - px ul \<Longrightarrow> 0 \<le> y \<Longrightarrow> y < py lr - py ul
             \<Longrightarrow> src (px ul + x) (py ul + y) = c"
  shows "srcIterRange ul lr src = constImage c (px lr - px ul) (py lr - py ul)"
proof -
  have "map (\<lambda>i. src (px ul + int i mod (px lr - px ul)) (py ul + int i div (px lr - px ul)))
            [0 ..< nat (px lr - px ul) * nat (py lr - py ul)]
      = map (\<lambda>i. c) [0 ..< nat (px lr - px ul) * nat (py lr - py ul)]"
  proof (rule map_cong[OF refl])
    fix i assume "i \<in> set [0 ..< nat (px lr - px ul) * nat (py lr - py ul)]"
    then have i: "i < nat (px lr - px ul) * nat (py lr - py ul)" by simp
    show "src (px ul + int i mod (px lr - px ul)) (py ul + int i div (px lr - px ul)) = c"
      using sample_coords[OF i] assms by simp
  qed
  then show ?thesis by (simp add: srcIterRange_def constImage_def Let_def map_replicate_const)
qed

lemma pixel_srcIterRange:
  assumes "0 \<le> x" "x < px lr - px ul" "0 \<le> y" "y < py lr - py ul"
  shows "pixel (srcIterRange ul lr src) x y = src (px ul + x) (py ul + y)"
  using sample_number[OF assms] by (simp add: pixel_def srcIterRange_def Let_def)


subsection \<open>The loops\<close>


lemma inner_loop_fst: "fst (inner_loop F w x d i dest) = i + nat (w - x)"
proof (induction F w x d i dest rule: inner_loop.induct)
  case (1 F w x d i dest)
  show ?case
  proof (cases "x < w")
    case True
    then show ?thesis using 1 by (subst inner_loop.simps) (simp add: nat_diff_distrib)
  next
    case False
    then show ?thesis by (subst inner_loop.simps) simp
  qed
qed

lemma comp_body:
  "comp (body F i d dest) X Y k =
     (if X = px d \<and> Y = py d \<and> k < 3 then tensor F i k else comp dest X Y k)"
  by (auto simp: body_def setComponent_def tensor_def)

lemma bands_body: "bands (body F i d dest) = bands dest"
  by (simp add: body_def setComponent_def)

lemma inner_loop_comp:
  "comp (snd (inner_loop F w x d i dest)) X Y k =
     (if Y = py d \<and> px d \<le> X \<and> X < px d + (w - x) \<and> k < 3
      then tensor F (i + nat (X - px d)) k
      else comp dest X Y k)"
proof (induction F w x d i dest rule: inner_loop.induct)
  case (1 F w x d i dest)
  show ?case
  proof (cases "x < w")
    case True
    have "comp (snd (inner_loop F w x d i dest)) X Y k =
          comp (snd (inner_loop F w (x + 1) (d\<lparr>px := px d + 1\<rparr>) (i + 1) (body F i d dest))) X Y k"
      using True by (subst inner_loop.simps) simp
    also have "\<dots> = (if Y = py d \<and> px d + 1 \<le> X \<and> X < px d + 1 + (w - (x + 1)) \<and> k < 3
      then tensor F (i + 1 + nat (X - (px d + 1))) k
      else comp (body F i d dest) X Y k)"
      using 1[OF True] by simp
    also have "\<dots> = (if Y = py d \<and> px d \<le> X \<and> X < px d + (w - x) \<and> k < 3
      then tensor F (i + nat (X - px d)) k
      else comp dest X Y k)"
    proof (cases "Y = py d \<and> px d + 1 \<le> X \<and> X < px d + (w - x) \<and> k < 3")
      case inside: True
      then have e: "i + 1 + nat (X - (px d + 1)) = i + nat (X - px d)" by linarith
      have "(if Y = py d \<and> px d + 1 \<le> X \<and> X < px d + 1 + (w - (x + 1)) \<and> k < 3
             then tensor F (i + 1 + nat (X - (px d + 1))) k
             else comp (body F i d dest) X Y k) = tensor F (i + 1 + nat (X - (px d + 1))) k"
        using inside by simp
      also have "\<dots> = tensor F (i + nat (X - px d)) k" by (simp only: e)
      also have "\<dots> = (if Y = py d \<and> px d \<le> X \<and> X < px d + (w - x) \<and> k < 3
             then tensor F (i + nat (X - px d)) k else comp dest X Y k)"
        using inside by simp
      finally show ?thesis .
    next
      case outside: False
      show ?thesis
      proof (cases "X = px d")
        case True
        then show ?thesis using \<open>x < w\<close> by (simp add: comp_body)
      next
        case False
        then show ?thesis using outside by (auto simp: comp_body)
      qed
    qed
    finally show ?thesis .
  next
    case False
    then show ?thesis by (subst inner_loop.simps) auto
  qed
qed


lemma inner_loop_bands: "bands (snd (inner_loop F w x d i dest)) = bands dest"
proof (induction F w x d i dest rule: inner_loop.induct)
  case (1 F w x d i dest)
  show ?case
  proof (cases "x < w")
    case True
    then show ?thesis using 1 by (subst inner_loop.simps) (simp add: bands_body)
  next
    case False
    then show ?thesis by (subst inner_loop.simps) simp
  qed
qed

lemma outer_loop_comp:
  "comp (outer_loop F w h y d i dest) X Y k =
     (if py d \<le> Y \<and> Y < py d + (h - y) \<and> px d \<le> X \<and> X < px d + w \<and> k < 3
      then tensor F (i + nat ((Y - py d) * w + (X - px d))) k
      else comp dest X Y k)"
proof (induction F w h y d i dest rule: outer_loop.induct)
  case (1 F w h y d i dest)
  show ?case
  proof (cases "y < h")
    case True
    obtain i' dest' where row: "inner_loop F w 0 d i dest = (i', dest')"
      by (cases "inner_loop F w 0 d i dest")
    have i': "i' = i + nat w" using inner_loop_fst[of F w 0 d i dest] row by simp
    have d': "comp dest' X Y k =
       (if Y = py d \<and> px d \<le> X \<and> X < px d + w \<and> k < 3
        then tensor F (i + nat (X - px d)) k else comp dest X Y k)"
      using inner_loop_comp[of F w 0 d i dest X Y k] row by simp
    have "comp (outer_loop F w h y d i dest) X Y k =
          comp (outer_loop F w h (y + 1) (d\<lparr>py := py d + 1\<rparr>) i' dest') X Y k"
      using True row by (subst outer_loop.simps) simp
    also have "\<dots> =
       (if py d + 1 \<le> Y \<and> Y < py d + 1 + (h - (y + 1)) \<and> px d \<le> X \<and> X < px d + w \<and> k < 3
        then tensor F (i' + nat ((Y - (py d + 1)) * w + (X - px d))) k
        else comp dest' X Y k)"
      using 1(1)[OF True row[symmetric]] by simp
    also have "\<dots> =
       (if py d \<le> Y \<and> Y < py d + (h - y) \<and> px d \<le> X \<and> X < px d + w \<and> k < 3
        then tensor F (i + nat ((Y - py d) * w + (X - px d))) k
        else comp dest X Y k)"
    proof (cases "py d + 1 \<le> Y \<and> Y < py d + (h - y) \<and> px d \<le> X \<and> X < px d + w \<and> k < 3")
      case below: True
      then have w: "0 < w" by linarith
      have "0 \<le> (Y - (py d + 1)) * w" using below w by simp
      moreover have "(Y - py d) * w = (Y - (py d + 1)) * w + w" by (simp add: algebra_simps)
      ultimately have e: "i' + nat ((Y - (py d + 1)) * w + (X - px d)) = i + nat ((Y - py d) * w + (X - px d))"
        using i' below w by linarith
      have "(if py d + 1 \<le> Y \<and> Y < py d + 1 + (h - (y + 1)) \<and> px d \<le> X \<and> X < px d + w \<and> k < 3
        then tensor F (i' + nat ((Y - (py d + 1)) * w + (X - px d))) k
        else comp dest' X Y k) = tensor F (i' + nat ((Y - (py d + 1)) * w + (X - px d))) k"
        using below by simp
      also have "\<dots> = tensor F (i + nat ((Y - py d) * w + (X - px d))) k" by (simp only: e)
      also have "\<dots> = (if py d \<le> Y \<and> Y < py d + (h - y) \<and> px d \<le> X \<and> X < px d + w \<and> k < 3
        then tensor F (i + nat ((Y - py d) * w + (X - px d))) k
        else comp dest X Y k)" using below by simp
      finally show ?thesis .
    next
      case notbelow: False
      show ?thesis
      proof (cases "Y = py d")
        case True
        then show ?thesis using \<open>y < h\<close> d' by simp
      next
        case False
        then show ?thesis using notbelow d' by auto
      qed
    qed
    finally show ?thesis .
  next
    case False
    then show ?thesis by (subst outer_loop.simps) auto
  qed
qed


lemma outer_loop_bands: "bands (outer_loop F w h y d i dest) = bands dest"
proof (induction F w h y d i dest rule: outer_loop.induct)
  case (1 F w h y d i dest)
  show ?case
  proof (cases "y < h")
    case True
    obtain i' dest' where row: "inner_loop F w 0 d i dest = (i', dest')"
      by (cases "inner_loop F w 0 d i dest")
    have "bands dest' = bands dest" using inner_loop_bands[of F w 0 d i dest] row by simp
    moreover have "outer_loop F w h y d i dest =
          outer_loop F w h (y + 1) (d\<lparr>py := py d + 1\<rparr>) i' dest'"
      using True row by (subst outer_loop.simps) simp
    ultimately show ?thesis using 1[OF True row[symmetric]] by simp
  next
    case False
    then show ?thesis by (subst outer_loop.simps) simp
  qed
qed

lemma assembly_comp:
  "comp (outer_loop F w h 0 d 0 dest) X Y k =
     (if in_region d w h X Y \<and> k < 3
      then tensor F (nat ((Y - py d) * w + (X - px d))) k
      else comp dest X Y k)"
  using outer_loop_comp[of F w h 0 d 0 dest X Y k] by (auto simp: in_region_def)

lemma assembly_empty:
  assumes "w \<le> 0 \<or> h \<le> 0"
  shows "outer_loop F w h 0 d 0 dest = dest"
proof (rule TensorImage.equality)
  show "bands (outer_loop F w h 0 d 0 dest) = bands dest" by (rule outer_loop_bands)
  have "\<And>X Y. \<not> in_region d w h X Y" using assms by (auto simp: in_region_def)
  then show "comp (outer_loop F w h 0 d 0 dest) = comp dest"
    by (intro ext) (simp add: assembly_comp)
qed simp


subsection \<open>The cascade\<close>

lemma bindE_Inr_iff: "bindE m f = Inr r \<longleftrightarrow> (\<exists>v. m = Inr v \<and> f v = Inr r)"
  by (cases m) (simp_all add: bindE_def)

lemma bindE_cong:
  assumes "m = m'" and "\<And>v. m' = Inr v \<Longrightarrow> f v = g v"
  shows "bindE m f = bindE m' g"
  using assms by (cases m') (simp_all add: bindE_def)

lemma convolveImage_Inr_dims:
  "convolveImage lib img (newImage w h) kx ky = Inr r \<Longrightarrow> has_dims r w h"
  by (auto simp: convolveImage_def split: sum.splits
           intro: has_dims_writeRegion has_dims_newImage)

lemma convolveImage_spec:
  assumes "has_dims img w h"
  shows "convolveImage lib img (newImage w h) kx ky = convolveSeparable lib img kx ky"
proof (cases "convolve lib kx ky img")
  case (Inl e)
  then show ?thesis by (simp add: convolveImage_def convolveSeparable_def)
next
  case (Inr f)
  have wd: "width img = w" and ht: "height img = h" using assms by (simp_all add: has_dims_def)
  have "data (writeRegion w h f (newImage w h))
        = map (\<lambda>i. f (int i mod w) (int i div w)) [0 ..< nat w * nat h]"
  proof (rule nth_equalityI)
    show "length (data (writeRegion w h f (newImage w h)))
          = length (map (\<lambda>i. f (int i mod w) (int i div w)) [0 ..< nat w * nat h])"
      by (simp add: writeRegion_def newImage_def)
  next
    fix i assume "i < length (data (writeRegion w h f (newImage w h)))"
    then have i: "i < nat w * nat h" by (simp add: writeRegion_def newImage_def)
    then have "i < length (data (newImage w h))" by (simp add: newImage_def)
    from data_writeRegion_nth[OF this, of w h f]
    have "data (writeRegion w h f (newImage w h)) ! i = f (int i mod w) (int i div w)"
      using sample_coords[OF i] by (simp add: newImage_def)
    then show "data (writeRegion w h f (newImage w h)) ! i
               = map (\<lambda>i. f (int i mod w) (int i div w)) [0 ..< nat w * nat h] ! i"
      using i by simp
  qed
  then have "writeRegion w h f (newImage w h)
        = \<lparr>width = w, height = h,
           data = map (\<lambda>i. f (int i mod w) (int i div w)) [0 ..< nat w * nat h]\<rparr>"
    by (simp add: writeRegion_def newImage_def)
  then show ?thesis using Inr by (simp add: convolveImage_def convolveSeparable_def wd ht)
qed

lemma combineTwoImages_spec:
  assumes "has_dims a w h" "has_dims b w h"
  shows "combineTwoImages a b (newImage w h) (+) = addPointwise a b"
proof -
  have wa: "width a = w" and ha: "height a = h" and la: "length (data a) = nat w * nat h"
    using assms(1) by (simp_all add: has_dims_def)
  have wb: "width b = w" and lb: "length (data b) = nat w * nat h"
    using assms(2) by (simp_all add: has_dims_def)
  let ?f = "\<lambda>x y. pixel a x y + pixel b x y"
  have "data (writeRegion w h ?f (newImage w h)) = map2 (+) (data a) (data b)"
  proof (rule nth_equalityI)
    show "length (data (writeRegion w h ?f (newImage w h))) = length (map2 (+) (data a) (data b))"
      by (simp add: writeRegion_def newImage_def la lb)
  next
    fix i assume "i < length (data (writeRegion w h ?f (newImage w h)))"
    then have i: "i < nat w * nat h" by (simp add: writeRegion_def newImage_def)
    then have "i < length (data (newImage w h))" by (simp add: newImage_def)
    from data_writeRegion_nth[OF this, of w h ?f]
    have "data (writeRegion w h ?f (newImage w h)) ! i = ?f (int i mod w) (int i div w)"
      using sample_coords[OF i] by (simp add: newImage_def)
    also have "\<dots> = data a ! i + data b ! i"
      by (simp add: pixel_def wa wb)
    finally show "data (writeRegion w h ?f (newImage w h)) ! i = map2 (+) (data a) (data b) ! i"
      using i by (simp add: la lb)
  qed
  then show ?thesis
    by (simp add: combineTwoImages_def addPointwise_def writeRegion_def newImage_def wa ha)
qed

lemma has_dims_combineTwoImages: "has_dims (combineTwoImages a b (newImage w h) f) w h"
  by (simp add: combineTwoImages_def has_dims_writeRegion has_dims_newImage)

lemma cascade_Inr_iff:
  "cascade lib input w h D S = Inr F \<longleftrightarrow>
     convolveImage lib input (newImage w h) D S = Inr (gx F) \<and>
     convolveImage lib input (newImage w h) S D = Inr (gy F) \<and>
     convolveImage lib (gx F) (newImage w h) D S = Inr (gxx F) \<and>
     convolveImage lib (gx F) (newImage w h) S D = Inr (gxy F) \<and>
     convolveImage lib (gy F) (newImage w h) S D = Inr (gyy F) \<and>
     laplace F = combineTwoImages (gxx F) (gyy F) (newImage w h) (+) \<and>
     convolveImage lib (laplace F) (newImage w h) D S = Inr (gx3 F) \<and>
     convolveImage lib (laplace F) (newImage w h) S D = Inr (gy3 F)"
  by (cases F) (auto simp: cascade_def bindE_Inr_iff Let_def)

lemma cascade_dims:
  assumes "cascade lib input w h D S = Inr F"
  shows "has_dims (gx F) w h" "has_dims (gy F) w h" "has_dims (gxx F) w h"
    "has_dims (gxy F) w h" "has_dims (gyy F) w h" "has_dims (laplace F) w h"
    "has_dims (gx3 F) w h" "has_dims (gy3 F) w h"
  using assms unfolding cascade_Inr_iff
  by (auto intro: convolveImage_Inr_dims simp: has_dims_combineTwoImages)

lemma cascade_step:
  assumes "has_dims img w h" and "\<And>r. has_dims r w h \<Longrightarrow> f r = g r"
  shows "bindE (convolveImage lib img (newImage w h) kx ky) f
         = bindE (convolveSeparable lib img kx ky) g"
proof (rule bindE_cong)
  show "convolveImage lib img (newImage w h) kx ky = convolveSeparable lib img kx ky"
    by (rule convolveImage_spec[OF assms(1)])
next
  fix v assume "convolveSeparable lib img kx ky = Inr v"
  then have "convolveImage lib img (newImage w h) kx ky = Inr v"
    by (simp add: convolveImage_spec[OF assms(1)])
  then show "f v = g v" by (intro assms(2) convolveImage_Inr_dims)
qed

lemma cascade_spec:
  assumes "has_dims input w h"
  shows "cascade lib input w h D S = spec_cascade lib input D S"
  unfolding cascade_def spec_cascade_def Let_def
proof (intro cascade_step assms)
  fix r ra rb rc rd
  assume d: "has_dims rb w h" "has_dims rd w h"
  have lap: "combineTwoImages rb rd (newImage w h) (+) = addPointwise rb rd"
    by (rule combineTwoImages_spec[OF d])
  have dl: "has_dims (addPointwise rb rd) w h"
    using has_dims_combineTwoImages[of rb rd w h "(+)"] by (simp only: lap)
  show "bindE (convolveImage lib (combineTwoImages rb rd (newImage w h) (+)) (newImage w h) D S)
         (\<lambda>i_gx3. bindE (convolveImage lib (combineTwoImages rb rd (newImage w h) (+)) (newImage w h) S D)
            (\<lambda>i_gy3. Inr \<lparr>gx = r, gy = ra, gxx = rb, gxy = rc, gyy = rd,
                 laplace = combineTwoImages rb rd (newImage w h) (+), gx3 = i_gx3, gy3 = i_gy3\<rparr>))
      = bindE (convolveSeparable lib (addPointwise rb rd) D S)
         (\<lambda>s_gx3. bindE (convolveSeparable lib (addPointwise rb rd) S D)
            (\<lambda>s_gy3. Inr \<lparr>gx = r, gy = ra, gxx = rb, gxy = rc, gyy = rd,
                 laplace = addPointwise rb rd, gx3 = s_gx3, gy3 = s_gy3\<rparr>))"
    unfolding lap by (intro cascade_step dl refl)
qed


subsection \<open>gradientEnergyTensor\<close>

lemma gradientEnergyTensor_bands:
  assumes "bands dest \<noteq> 3"
  shows "gradientEnergyTensor lib sul slr src dul dest D S =
           (Some (PreconditionViolation
                    ''gradientEnergyTensor(): output image must have 3 bands.''), dest)"
  using assms by (simp add: gradientEnergyTensor_def)

lemma gradientEnergyTensor_construct:
  assumes "bands dest = 3" and "construct lib (px slr - px sul) (py slr - py sul) = Some e"
  shows "gradientEnergyTensor lib sul slr src dul dest D S = (Some (Propagated e), dest)"
  using assms by (simp add: gradientEnergyTensor_def)

lemma gradientEnergyTensor_cascade_Inl:
  assumes "bands dest = 3" and "construct lib (px slr - px sul) (py slr - py sul) = None"
    and "cascade lib (srcIterRange sul slr src) (px slr - px sul) (py slr - py sul) D S = Inl e"
  shows "gradientEnergyTensor lib sul slr src dul dest D S = (Some (Propagated e), dest)"
  using assms by (simp add: gradientEnergyTensor_def)

lemma gradientEnergyTensor_cascade_Inr:
  assumes "bands dest = 3" and "construct lib (px slr - px sul) (py slr - py sul) = None"
    and "cascade lib (srcIterRange sul slr src) (px slr - px sul) (py slr - py sul) D S = Inr F"
  shows "gradientEnergyTensor lib sul slr src dul dest D S =
           (None, outer_loop F (px slr - px sul) (py slr - py sul) 0 dul 0 dest)"
  using assms by (simp add: gradientEnergyTensor_def)

lemma gradientEnergyTensor_returns:
  assumes "fst (gradientEnergyTensor lib sul slr src dul dest D S) = None"
  shows "bands dest = 3 \<and> construct lib (px slr - px sul) (py slr - py sul) = None \<and>
         (\<exists>F. cascade lib (srcIterRange sul slr src) (px slr - px sul) (py slr - py sul) D S
                = Inr F)"
  using assms
  by (auto simp: gradientEnergyTensor_def Let_def split: if_splits option.splits sum.splits)

lemma tensor_pixels:
  assumes "cascade lib input w h D S = Inr F" and "0 \<le> x" "x < w" "0 \<le> y" "y < h"
  shows "tensor F (nat (y * w + x)) 0 =
           sq (pixel (gxx F) x y) + sq (pixel (gxy F) x y) - pixel (gx F) x y * pixel (gx3 F) x y"
    and "tensor F (nat (y * w + x)) 1 =
           - pixel (gxy F) x y * (pixel (gxx F) x y + pixel (gyy F) x y)
           + 0.5 * (pixel (gx F) x y * pixel (gy3 F) x y + pixel (gy F) x y * pixel (gx3 F) x y)"
    and "tensor F (nat (y * w + x)) 2 =
           sq (pixel (gxy F) x y) + sq (pixel (gyy F) x y) - pixel (gy F) x y * pixel (gy3 F) x y"
  using cascade_dims[OF assms(1)]
  by (simp_all add: tensor_def t11_def t12_def t22_def pixel_def has_dims_def)

subsection \<open>The reference library on the sample\<close>

lemma sample_input:
  "srcIterRange (pos 0 0) (pos 3 3) sample_src =
     \<lparr>width = 3, height = 3, data = [0, 8, 32, 0, 24, 64, 0, 40, 96]\<rparr>"
  by code_simp

lemma sample_gx:
  "convolveImage ref_library \<lparr>width = 3, height = 3, data = [0, 8, 32, 0, 24, 64, 0, 40, 96]\<rparr>
     (newImage 3 3) grad smooth = Inr (gx sample_fields)"
  unfolding sample_fields_def fields.simps by code_simp

lemma sample_gy:
  "convolveImage ref_library \<lparr>width = 3, height = 3, data = [0, 8, 32, 0, 24, 64, 0, 40, 96]\<rparr>
     (newImage 3 3) smooth grad = Inr (gy sample_fields)"
  unfolding sample_fields_def fields.simps by code_simp

lemma sample_gxx:
  "convolveImage ref_library (gx sample_fields) (newImage 3 3) grad smooth
     = Inr (gxx sample_fields)"
  unfolding sample_fields_def fields.simps by code_simp

lemma sample_gxy:
  "convolveImage ref_library (gx sample_fields) (newImage 3 3) smooth grad
     = Inr (gxy sample_fields)"
  unfolding sample_fields_def fields.simps by code_simp

lemma sample_gyy:
  "convolveImage ref_library (gy sample_fields) (newImage 3 3) smooth grad
     = Inr (gyy sample_fields)"
  unfolding sample_fields_def fields.simps by code_simp

lemma sample_laplace:
  "laplace sample_fields
     = combineTwoImages (gxx sample_fields) (gyy sample_fields) (newImage 3 3) (+)"
  unfolding sample_fields_def fields.simps by code_simp

lemma sample_gx3:
  "convolveImage ref_library (laplace sample_fields) (newImage 3 3) grad smooth
     = Inr (gx3 sample_fields)"
  unfolding sample_fields_def fields.simps by code_simp

lemma sample_gy3:
  "convolveImage ref_library (laplace sample_fields) (newImage 3 3) smooth grad
     = Inr (gy3 sample_fields)"
  unfolding sample_fields_def fields.simps by code_simp

lemma sample_cascade:
  "cascade ref_library (srcIterRange (pos 0 0) (pos 3 3) sample_src) 3 3 grad smooth
     = Inr sample_fields"
  unfolding cascade_Inr_iff sample_input
  using sample_gx sample_gy sample_gxx sample_gxy sample_gyy sample_laplace sample_gx3 sample_gy3
  by blast

lemma sample_window:
  "px (pos 3 3) - px (pos 0 0) = 3" "py (pos 3 3) - py (pos 0 0) = 3"
  by (simp_all add: pos_def)

lemma sample_call:
  "gradientEnergyTensor ref_library (pos 0 0) (pos 3 3) sample_src
     (pos 10 20) (sample_dest 3) grad smooth = (None, sample_out)"
proof -
  have b: "bands (sample_dest 3) = 3" by (simp add: sample_dest_def)
  have c: "construct ref_library (px (pos 3 3) - px (pos 0 0)) (py (pos 3 3) - py (pos 0 0))
           = None"
    by (simp add: sample_window ref_library_def)
  have d: "cascade ref_library (srcIterRange (pos 0 0) (pos 3 3) sample_src)
             (px (pos 3 3) - px (pos 0 0)) (py (pos 3 3) - py (pos 0 0)) grad smooth
           = Inr sample_fields"
    by (simp only: sample_window sample_cascade)
  show ?thesis
    unfolding sample_out_def gradientEnergyTensor_cascade_Inr[OF b c d] by simp
qed

lemma gradientEnergyTensor_cases:
  assumes "bands dest = 3"
  shows "(\<exists>e. gradientEnergyTensor lib sul slr src dul dest D S = (Some (Propagated e), dest))
       \<or> (\<exists>F. construct lib (px slr - px sul) (py slr - py sul) = None
              \<and> cascade lib (srcIterRange sul slr src) (px slr - px sul) (py slr - py sul) D S
                  = Inr F
              \<and> gradientEnergyTensor lib sul slr src dul dest D S
                  = (None, outer_loop F (px slr - px sul) (py slr - py sul) 0 dul 0 dest))"
proof (cases "construct lib (px slr - px sul) (py slr - py sul)")
  case (Some e)
  then show ?thesis using gradientEnergyTensor_construct[OF assms Some] by blast
next
  case None
  show ?thesis
  proof (cases "cascade lib (srcIterRange sul slr src) (px slr - px sul) (py slr - py sul) D S")
    case (Inl e)
    then show ?thesis using gradientEnergyTensor_cascade_Inl[OF assms None Inl] by blast
  next
    case (Inr F)
    then show ?thesis using gradientEnergyTensor_cascade_Inr[OF assms None Inr] None by blast
  qed
qed

lemma assembly_idempotent:
  "outer_loop F w h 0 d 0 (outer_loop F w h 0 d 0 dest) = outer_loop F w h 0 d 0 dest"
proof (rule TensorImage.equality)
  show "bands (outer_loop F w h 0 d 0 (outer_loop F w h 0 d 0 dest))
        = bands (outer_loop F w h 0 d 0 dest)"
    by (rule outer_loop_bands)
  show "comp (outer_loop F w h 0 d 0 (outer_loop F w h 0 d 0 dest))
        = comp (outer_loop F w h 0 d 0 dest)"
    by (intro ext) (simp add: assembly_comp)
qed simp

lemma scaling_cascade:
  "\<exists>F. cascade scaling_library input w h D S = Inr F"
  by (simp add: cascade_def bindE_def convolveImage_def scaling_library_def Let_def)

lemma empty_region_fails:
  "gradientEnergyTensor ref_library (pos 0 0) (pos 0 3) sample_src (pos 10 20)
     (sample_dest 3) grad smooth
   = (Some (Propagated ''kernel longer than line''), sample_dest 3)"
proof -
  have b: "bands (sample_dest 3) = 3" by (simp add: sample_dest_def)
  have c: "construct ref_library (px (pos 0 3) - px (pos 0 0)) (py (pos 0 3) - py (pos 0 0))
           = None"
    by (simp add: ref_library_def pos_def)
  have "convolve ref_library grad smooth (srcIterRange (pos 0 0) (pos 0 3) sample_src)
        = Inl ''kernel longer than line''"
    by (simp add: ref_library_def ref_convolve_def srcIterRange_def pos_def grad_def)
  then have d: "cascade ref_library (srcIterRange (pos 0 0) (pos 0 3) sample_src)
             (px (pos 0 3) - px (pos 0 0)) (py (pos 0 3) - py (pos 0 0)) grad smooth
           = Inl ''kernel longer than line''"
    by (simp add: cascade_def bindE_def convolveImage_def)
  show ?thesis by (rule gradientEnergyTensor_cascade_Inl[OF b c d])
qed

subsection \<open>Zero fields\<close>

lemma pixel_constImage:
  assumes "0 \<le> x" "x < w" "0 \<le> y" "y < h"
  shows "pixel (constImage c w h) x y = c"
  using sample_number(1)[OF assms] by (simp add: pixel_def constImage_def)

lemma convolveImage_zero:
  assumes "zeroes_out lib kx ky img w h" and "width img = w" and "height img = h"
  shows "convolveImage lib img (newImage w h) kx ky = Inr (newImage w h)"
proof (cases "convolve lib kx ky img")
  case (Inl e)
  then show ?thesis using assms(1) by (simp add: zeroes_out_def)
next
  case (Inr f)
  then have "\<And>x y. 0 \<le> x \<Longrightarrow> x < w \<Longrightarrow> 0 \<le> y \<Longrightarrow> y < h \<Longrightarrow> f x y = 0"
    using assms(1) by (simp add: zeroes_out_def)
  then have "writeRegion w h f (newImage w h) = newImage w h"
    unfolding newImage_constImage[of w h] by (rule writeRegion_const[unfolded newImage_constImage])
  then show ?thesis using Inr assms(2,3) by (simp add: convolveImage_def)
qed

lemma combineTwoImages_zero:
  "combineTwoImages (newImage w h) (newImage w h) (newImage w h) (+) = newImage w h"
proof -
  have "\<And>x y. 0 \<le> x \<Longrightarrow> x < w \<Longrightarrow> 0 \<le> y \<Longrightarrow> y < h \<Longrightarrow>
          pixel (newImage w h) x y + pixel (newImage w h) x y = 0"
    by (simp add: newImage_constImage pixel_constImage)
  then have "writeRegion w h (\<lambda>x y. pixel (newImage w h) x y + pixel (newImage w h) x y)
               (newImage w h) = constImage 0 w h"
    by (rule writeRegion_const)
  then show ?thesis
    by (simp add: combineTwoImages_def newImage_constImage[symmetric]) (simp add: newImage_def)
qed

lemma zero_cascade:
  assumes "width input = w" and "height input = h"
    and "zeroes_out lib D S input w h" and "zeroes_out lib S D input w h"
    and "zeroes_out lib D S (newImage w h) w h" and "zeroes_out lib S D (newImage w h) w h"
  shows "cascade lib input w h D S = Inr (zero_fields w h)"
proof -
  have nw: "width (newImage w h) = w" "height (newImage w h) = h" by (simp_all add: newImage_def)
  note first = convolveImage_zero[OF assms(3) assms(1,2)] convolveImage_zero[OF assms(4) assms(1,2)]
  note later = convolveImage_zero[OF assms(5) nw] convolveImage_zero[OF assms(6) nw]
  show ?thesis
    unfolding cascade_Inr_iff zero_fields_def fields.simps
    using first later combineTwoImages_zero[of w h] by simp
qed

lemma tensor_zero_fields:
  assumes "i < nat w * nat h"
  shows "tensor (zero_fields w h) i k = 0"
  using assms
  by (simp add: tensor_def t11_def t12_def t22_def sq_def zero_fields_def newImage_def)

lemma zero_output:
  assumes "bands dest = 3" and "construct lib (px slr - px sul) (py slr - py sul) = None"
    and "cascade lib (srcIterRange sul slr src) (px slr - px sul) (py slr - py sul) D S
         = Inr (zero_fields (px slr - px sul) (py slr - py sul))"
  shows "fst (gradientEnergyTensor lib sul slr src dul dest D S) = None"
    and "in_region dul (px slr - px sul) (py slr - py sul) X Y \<Longrightarrow> k < 3 \<Longrightarrow>
         comp (snd (gradientEnergyTensor lib sul slr src dul dest D S)) X Y k = 0"
proof -
  let ?w = "px slr - px sul" and ?h = "py slr - py sul"
  note r = gradientEnergyTensor_cascade_Inr[OF assms, of dul]
  show "fst (gradientEnergyTensor lib sul slr src dul dest D S) = None" by (simp add: r)
  assume reg: "in_region dul ?w ?h X Y" and k: "k < 3"
  then have "0 \<le> X - px dul" "X - px dul < ?w" "0 \<le> Y - py dul" "Y - py dul < ?h"
    by (simp_all add: in_region_def)
  from sample_number(1)[OF this]
  have "tensor (zero_fields ?w ?h) (nat ((Y - py dul) * ?w + (X - px dul))) k = 0"
    by (rule tensor_zero_fields)
  then show "comp (snd (gradientEnergyTensor lib sul slr src dul dest D S)) X Y k = 0"
    using reg k by (simp add: r assembly_comp)
qed

subsection \<open>The reference library on constant fields\<close>

lemma clampi_range: "0 < n \<Longrightarrow> 0 \<le> clampi n i \<and> clampi n i < n"
  by (auto simp: clampi_def)

lemma tapsum_zero: "tapsum k (\<lambda>i. 0) = 0"
  by (simp add: tapsum_def)

lemma tapsum_grad_const: "tapsum grad (\<lambda>i. c) = 0"
  by (simp add: tapsum_def grad_def)

lemma ref_convolve_const:
  assumes "0 < w" "0 < h"
    and "int (length (ktaps kx)) \<le> w" "int (length (ktaps ky)) \<le> h"
  shows "convolve ref_library kx ky (constImage c w h)
         = Inr (\<lambda>x y. tapsum ky (\<lambda>j. tapsum kx (\<lambda>i. c)))"
proof -
  have "\<And>x y i j. pixel (constImage c w h) (clampi w (x - i)) (clampi h (y - j)) = c"
    using clampi_range[OF assms(1)] clampi_range[OF assms(2)] by (simp add: pixel_constImage)
  then show ?thesis
    using assms(3,4) by (simp add: ref_library_def ref_convolve_def constImage_def
      pixel_def)
qed

lemma ref_zeroes_zero:
  assumes "0 < w" "0 < h"
    and "int (length (ktaps kx)) \<le> w" "int (length (ktaps ky)) \<le> h"
  shows "zeroes_out ref_library kx ky (newImage w h) w h"
  unfolding zeroes_out_def newImage_constImage ref_convolve_const[OF assms]
  by (simp add: tapsum_zero)

lemma ref_annihilates:
  assumes "3 \<le> w" "3 \<le> h"
  shows "annihilates_constants ref_library grad smooth w h"
proof -
  have l: "int (length (ktaps grad)) \<le> w" "int (length (ktaps grad)) \<le> h"
          "int (length (ktaps smooth)) \<le> w" "int (length (ktaps smooth)) \<le> h"
    using assms by (simp_all add: grad_def smooth_def)
  have p: "0 < w" "0 < h" using assms by simp_all
  show ?thesis
    unfolding annihilates_constants_def zeroes_out_def
      ref_convolve_const[OF p l(1,4)] ref_convolve_const[OF p l(3,2)]
    by (simp add: tapsum_grad_const tapsum_zero)
qed

section \<open>The claims\<close>

text \<open>
  C1: at every pixel \<open>(x, y)\<close> of the region, the bands 0, 1 and 2 that a returning
  call leaves in the destination are t11, t12 and t22 of the spec, computed from
  the values of the seven fields at the same coordinates.
\<close>

theorem gradientEnergyTensor_formula:
  assumes "gradientEnergyTensor lib sul slr src dul dest D S = (None, dest')"
    and "cascade lib (srcIterRange sul slr src) (px slr - px sul) (py slr - py sul) D S = Inr F"
    and "0 \<le> x" "x < px slr - px sul" "0 \<le> y" "y < py slr - py sul"
  shows "comp dest' (px dul + x) (py dul + y) 0 =
           sq (pixel (gxx F) x y) + sq (pixel (gxy F) x y) - pixel (gx F) x y * pixel (gx3 F) x y
       \<and> comp dest' (px dul + x) (py dul + y) 1 =
           - pixel (gxy F) x y * (pixel (gxx F) x y + pixel (gyy F) x y)
           + 0.5 * (pixel (gx F) x y * pixel (gy3 F) x y + pixel (gy F) x y * pixel (gx3 F) x y)
       \<and> comp dest' (px dul + x) (py dul + y) 2 =
           sq (pixel (gxy F) x y) + sq (pixel (gyy F) x y) - pixel (gy F) x y * pixel (gy3 F) x y"
proof -
  let ?w = "px slr - px sul" and ?h = "py slr - py sul"
  have ret: "fst (gradientEnergyTensor lib sul slr src dul dest D S) = None"
    using assms(1) by simp
  from gradientEnergyTensor_returns[OF ret]
  have b: "bands dest = 3" and c: "construct lib ?w ?h = None" by simp_all
  have dest': "dest' = outer_loop F ?w ?h 0 dul 0 dest"
    using gradientEnergyTensor_cascade_Inr[OF b c assms(2), of dul] assms(1) by simp
  have reg: "in_region dul ?w ?h (px dul + x) (py dul + y)"
    using assms(3-6) by (simp add: in_region_def)
  have "\<And>k. k < 3 \<Longrightarrow> comp dest' (px dul + x) (py dul + y) k = tensor F (nat (y * ?w + x)) k"
    unfolding dest' using reg by (simp add: assembly_comp)
  then show ?thesis
    using tensor_pixels[OF assms(2-6)] by simp
qed

theorem gradientEnergyTensor_formula_witness:
  "gradientEnergyTensor ref_library (pos 0 0) (pos 3 3) sample_src
     (pos 10 20) (sample_dest 3) grad smooth = (None, sample_out)
   \<and> comp sample_out 11 21 0 = 98193 / 256
   \<and> comp sample_out 11 21 1 = - (681 / 4)
   \<and> comp sample_out 11 21 2 = 44945 / 256"
proof -
  have c: "cascade ref_library (srcIterRange (pos 0 0) (pos 3 3) sample_src)
             (px (pos 3 3) - px (pos 0 0)) (py (pos 3 3) - py (pos 0 0)) grad smooth
           = Inr sample_fields"
    by (simp only: sample_window sample_cascade)
  have r: "(0::int) \<le> 1" "(1::int) < px (pos 3 3) - px (pos 0 0)"
       "(1::int) < py (pos 3 3) - py (pos 0 0)"
    by (simp_all add: sample_window)
  from gradientEnergyTensor_formula[OF sample_call c r(1,2) r(1,3)]
  show ?thesis
    using sample_call by (simp add: pos_def pixel_def sample_fields_def sq_def)
qed

text \<open>
  C2: the cascade of the code computes the seven fields and the Laplacian in the
  order and with the kernel roles of section 4.1 of the spec: it equals
  \<open>spec_cascade\<close>, step for step and failure for failure, on every source range
  and every pair of kernels.
\<close>

theorem cascade_refines_spec:
  "cascade lib (srcIterRange sul slr src) (px slr - px sul) (py slr - py sul) D S
     = spec_cascade lib (srcIterRange sul slr src) D S"
  by (rule cascade_spec[OF srcIterRange_dims])

theorem cascade_refines_spec_witness:
  "spec_cascade ref_library (srcIterRange (pos 0 0) (pos 3 3) sample_src) grad smooth
     = Inr sample_fields"
  using cascade_refines_spec[of ref_library "pos 0 0" "pos 3 3" sample_src grad smooth]
  by (simp only: sample_window sample_cascade)

text \<open>
  C3: the call raises the precondition violation exactly when the destination does
  not have three bands. It then raises it whatever the library does (a library
  whose every call raises included: no library function has been called), and
  whenever a call raises anything the destination is as it was.
\<close>

theorem precondition_violation:
  "((\<exists>msg. fst (gradientEnergyTensor (lib :: ('k, 'e) library) sul slr src dul dest D S)
             = Some (PreconditionViolation msg)) \<longleftrightarrow> bands dest \<noteq> 3)
   \<and> (bands dest \<noteq> 3 \<longrightarrow>
        (\<forall>lib' sul' slr' src' D' S'.
           gradientEnergyTensor (lib' :: ('k, 'e) library) sul' slr' src' dul dest D' S'
             = (Some (PreconditionViolation three_bands_message), dest)))
   \<and> (fst (gradientEnergyTensor lib sul slr src dul dest D S) \<noteq> None \<longrightarrow>
        snd (gradientEnergyTensor lib sul slr src dul dest D S) = dest)"
proof (cases "bands dest = 3")
  case True
  let ?r = "gradientEnergyTensor lib sul slr src dul dest D S"
  from gradientEnergyTensor_cases[OF True, of lib sul slr src dul D S]
  consider e where "?r = (Some (Propagated e), dest)" | d where "?r = (None, d)"
    by blast
  then have "(\<forall>msg. fst ?r \<noteq> Some (PreconditionViolation msg))
             \<and> (fst ?r \<noteq> None \<longrightarrow> snd ?r = dest)"
  proof cases
    case 1
    then show ?thesis by simp
  next
    case 2
    then show ?thesis by simp
  qed
  then show ?thesis using True by blast
next
  case False
  have all: "gradientEnergyTensor lib' sul' slr' src' dul dest D' S'
            = (Some (PreconditionViolation three_bands_message), dest)"
    for lib' :: "('k, 'e) library" and sul' slr' src' D' S'
    unfolding three_bands_message_def by (rule gradientEnergyTensor_bands[OF False])
  have "fst (gradientEnergyTensor lib sul slr src dul dest D S)
          = Some (PreconditionViolation three_bands_message)"
       "snd (gradientEnergyTensor lib sul slr src dul dest D S) = dest"
    unfolding three_bands_message_def by (simp_all add: gradientEnergyTensor_bands[OF False])
  then show ?thesis using False all by blast
qed

theorem precondition_violation_witness:
  "bands (sample_dest 2) \<noteq> 3
   \<and> gradientEnergyTensor ref_library (pos 0 0) (pos 3 3) sample_src (pos 10 20)
        (sample_dest 2) grad smooth
      = (Some (PreconditionViolation three_bands_message), sample_dest 2)
   \<and> gradientEnergyTensor failing_library (pos 0 0) (pos 3 3) sample_src (pos 10 20)
        (sample_dest 2) grad smooth
      = (Some (PreconditionViolation three_bands_message), sample_dest 2)"
proof -
  have b: "bands (sample_dest 2) \<noteq> 3" by (simp add: sample_dest_def)
  from precondition_violation[of ref_library "pos 0 0" "pos 3 3" sample_src "pos 10 20"
      "sample_dest 2" grad smooth]
  have "\<forall>lib' sul' slr' src' D' S'.
           gradientEnergyTensor (lib' :: (Kernel1D, string) library) sul' slr' src'
             (pos 10 20) (sample_dest 2) D' S'
             = (Some (PreconditionViolation three_bands_message), sample_dest 2)"
    using b by blast
  then show ?thesis using b by blast
qed

text \<open>
  C4: the region read, the eight images as constructed and as every convolution
  leaves them, and the eight fields of a returning call all have the dimensions
  \<open>w\<close> by \<open>h\<close> of the source range; the call stores all three bands of the
  \<open>w\<close> by \<open>h\<close> pixels from \<open>dupperleft\<close> on and nothing else.
\<close>

theorem dimensions_preserved:
  assumes "w = px slr - px sul" and "h = py slr - py sul"
    and "gradientEnergyTensor lib sul slr src dul dest D S = (None, dest')"
    and "cascade lib (srcIterRange sul slr src) w h D S = Inr F"
  shows "has_dims (srcIterRange sul slr src) w h
       \<and> has_dims (newImage w h) w h
       \<and> (\<forall>img kx ky r. convolveImage lib img (newImage w h) kx ky = Inr r \<longrightarrow> has_dims r w h)
       \<and> has_dims (gx F) w h \<and> has_dims (gy F) w h \<and> has_dims (gxx F) w h
       \<and> has_dims (gxy F) w h \<and> has_dims (gyy F) w h \<and> has_dims (laplace F) w h
       \<and> has_dims (gx3 F) w h \<and> has_dims (gy3 F) w h
       \<and> (\<forall>X Y k. in_region dul w h X Y \<and> k < 3 \<longrightarrow>
             comp dest' X Y k = tensor F (nat ((Y - py dul) * w + (X - px dul))) k)
       \<and> (\<forall>X Y k. \<not> (in_region dul w h X Y \<and> k < 3) \<longrightarrow> comp dest' X Y k = comp dest X Y k)"
proof -
  have ret: "fst (gradientEnergyTensor lib sul slr src dul dest D S) = None"
    using assms(3) by simp
  from gradientEnergyTensor_returns[OF ret]
  have b: "bands dest = 3" and c: "construct lib (px slr - px sul) (py slr - py sul) = None"
    by simp_all
  have F: "cascade lib (srcIterRange sul slr src) (px slr - px sul) (py slr - py sul) D S = Inr F"
    using assms(1,2,4) by simp
  have dest': "dest' = outer_loop F w h 0 dul 0 dest"
    using gradientEnergyTensor_cascade_Inr[OF b c F, of dul] assms(1-3) by simp
  have src: "has_dims (srcIterRange sul slr src) w h"
    unfolding assms(1,2) by (rule srcIterRange_dims)
  have conv: "\<forall>img kx ky r. convolveImage lib img (newImage w h) kx ky = Inr r \<longrightarrow> has_dims r w h"
    by (intro allI impI) (rule convolveImage_Inr_dims)
  have out: "\<forall>X Y k. in_region dul w h X Y \<and> k < 3 \<longrightarrow>
             comp dest' X Y k = tensor F (nat ((Y - py dul) * w + (X - px dul))) k"
    unfolding dest' by (simp add: assembly_comp)
  have frame: "\<forall>X Y k. \<not> (in_region dul w h X Y \<and> k < 3) \<longrightarrow> comp dest' X Y k = comp dest X Y k"
    unfolding dest' by (simp add: assembly_comp)
  show ?thesis
    using src has_dims_newImage[of w h] conv cascade_dims[OF assms(4)] out frame by blast
qed

theorem dimensions_preserved_witness:
  "gradientEnergyTensor ref_library (pos 0 0) (pos 3 3) sample_src
     (pos 10 20) (sample_dest 3) grad smooth = (None, sample_out)
   \<and> has_dims (srcIterRange (pos 0 0) (pos 3 3) sample_src) 3 3
   \<and> has_dims (gx sample_fields) 3 3 \<and> has_dims (gy3 sample_fields) 3 3
   \<and> comp sample_out 12 22 2 = tensor sample_fields 8 2
   \<and> comp sample_out 13 22 2 = 7 \<and> comp sample_out 12 22 3 = 7"
proof -
  note t = dimensions_preserved[OF sample_window(1)[symmetric] sample_window(2)[symmetric]
      sample_call sample_cascade]
  have i: "in_region (pos 10 20) 3 3 12 22 \<and> (2::nat) < 3"
    by (simp add: in_region_def pos_def)
  have o: "\<not> (in_region (pos 10 20) 3 3 13 22 \<and> (2::nat) < 3)"
          "\<not> (in_region (pos 10 20) 3 3 12 22 \<and> (3::nat) < 3)"
    by (simp_all add: in_region_def pos_def)
  have "comp sample_out 12 22 2
        = tensor sample_fields (nat ((22 - py (pos 10 20)) * 3 + (12 - px (pos 10 20)))) 2"
    using t i by blast
  then have a: "comp sample_out 12 22 2 = tensor sample_fields 8 2" by (simp add: pos_def)
  have "comp sample_out 13 22 2 = comp (sample_dest 3) 13 22 2"
       "comp sample_out 12 22 3 = comp (sample_dest 3) 12 22 3"
    using t o by blast+
  then have b: "comp sample_out 13 22 2 = 7" "comp sample_out 12 22 3 = 7"
    by (simp_all add: sample_dest_def)
  show ?thesis using sample_call t a b by blast
qed

text \<open>
  C5: on a source that is zero on the region, with kernels on which the
  convolution returns and maps the zero field to zero, a call on a destination of
  three bands returns; all eight fields are zero everywhere and so is every band
  of every pixel of the region.
\<close>

theorem zero_input:
  assumes "w = px slr - px sul" and "h = py slr - py sul"
    and "bands dest = 3" and "construct lib w h = None"
    and "\<forall>x \<in> {0 ..< w}. \<forall>y \<in> {0 ..< h}. src (px sul + x) (py sul + y) = 0"
    and "zeroes_out lib D S (newImage w h) w h" and "zeroes_out lib S D (newImage w h) w h"
  shows "cascade lib (srcIterRange sul slr src) w h D S = Inr (zero_fields w h)
       \<and> fst (gradientEnergyTensor lib sul slr src dul dest D S) = None
       \<and> (\<forall>X Y k. in_region dul w h X Y \<and> k < 3 \<longrightarrow>
             comp (snd (gradientEnergyTensor lib sul slr src dul dest D S)) X Y k = 0)"
proof -
  have "srcIterRange sul slr src = constImage 0 (px slr - px sul) (py slr - py sul)"
    using assms(5) unfolding assms(1,2) by (intro srcIterRange_const) simp
  then have input: "srcIterRange sul slr src = newImage w h"
    by (simp add: newImage_constImage assms(1,2))
  have nw: "width (newImage w h) = w" "height (newImage w h) = h" by (simp_all add: newImage_def)
  have c: "cascade lib (srcIterRange sul slr src) w h D S = Inr (zero_fields w h)"
    unfolding input by (rule zero_cascade[OF nw assms(6,7,6,7)])
  note z = zero_output[OF assms(3) assms(4)[unfolded assms(1,2)] c[unfolded assms(1,2)], of dul]
  show ?thesis using c z unfolding assms(1,2) by blast
qed

theorem zero_input_witness:
  "bands (sample_dest 3) = 3 \<and> construct ref_library 3 3 = None
   \<and> zeroes_out ref_library grad smooth (newImage 3 3) 3 3
   \<and> zeroes_out ref_library smooth grad (newImage 3 3) 3 3
   \<and> cascade ref_library (srcIterRange (pos 0 0) (pos 3 3) (\<lambda>x y. 0)) 3 3 grad smooth
       = Inr (zero_fields 3 3)
   \<and> fst (gradientEnergyTensor ref_library (pos 0 0) (pos 3 3) (\<lambda>x y. 0) (pos 10 20)
            (sample_dest 3) grad smooth) = None
   \<and> comp (snd (gradientEnergyTensor ref_library (pos 0 0) (pos 3 3) (\<lambda>x y. 0) (pos 10 20)
            (sample_dest 3) grad smooth)) 11 21 1 = 0"
proof -
  have b: "bands (sample_dest 3) = 3" by (simp add: sample_dest_def)
  have c: "construct ref_library 3 3 = None" by (simp add: ref_library_def)
  have z: "zeroes_out ref_library grad smooth (newImage 3 3) 3 3"
          "zeroes_out ref_library smooth grad (newImage 3 3) 3 3"
    by (rule ref_zeroes_zero; simp add: grad_def smooth_def)+
  have s: "\<forall>x \<in> {0 ..< 3::int}. \<forall>y \<in> {0 ..< 3::int}.
             (\<lambda>x y. 0::real) (px (pos 0 0) + x) (py (pos 0 0) + y) = 0"
    by simp
  note t = zero_input[OF sample_window(1)[symmetric] sample_window(2)[symmetric] b c s z,
      of "pos 10 20"]
  have i: "in_region (pos 10 20) 3 3 11 21 \<and> (1::nat) < 3"
    by (simp add: in_region_def pos_def)
  show ?thesis using b c z t i by blast
qed

text \<open>
  C6: on a source that is constant on the region, with a derivative kernel that
  annihilates constants along either axis, a call on a destination of three bands
  returns; gx and gy are zero everywhere, so are the other fields, and so is every
  band of every pixel of the region.
\<close>

theorem constant_input:
  assumes "w = px slr - px sul" and "h = py slr - py sul"
    and "bands dest = 3" and "construct lib w h = None"
    and "\<forall>x \<in> {0 ..< w}. \<forall>y \<in> {0 ..< h}. src (px sul + x) (py sul + y) = c"
    and "annihilates_constants lib D S w h"
  shows "cascade lib (srcIterRange sul slr src) w h D S = Inr (zero_fields w h)
       \<and> fst (gradientEnergyTensor lib sul slr src dul dest D S) = None
       \<and> (\<forall>X Y k. in_region dul w h X Y \<and> k < 3 \<longrightarrow>
             comp (snd (gradientEnergyTensor lib sul slr src dul dest D S)) X Y k = 0)"
proof -
  have input: "srcIterRange sul slr src = constImage c w h"
    using assms(5) unfolding assms(1,2) by (intro srcIterRange_const) simp
  have cw: "width (constImage c w h) = w" "height (constImage c w h) = h"
    by (simp_all add: constImage_def)
  have zc: "zeroes_out lib D S (constImage c w h) w h" "zeroes_out lib S D (constImage c w h) w h"
    using assms(6) by (simp_all add: annihilates_constants_def)
  have z0: "zeroes_out lib D S (newImage w h) w h" "zeroes_out lib S D (newImage w h) w h"
    using assms(6) by (simp_all add: annihilates_constants_def newImage_constImage)
  have c: "cascade lib (srcIterRange sul slr src) w h D S = Inr (zero_fields w h)"
    unfolding input by (rule zero_cascade[OF cw zc z0])
  note z = zero_output[OF assms(3) assms(4)[unfolded assms(1,2)] c[unfolded assms(1,2)], of dul]
  show ?thesis using c z unfolding assms(1,2) by blast
qed

theorem constant_input_witness:
  "bands (sample_dest 3) = 3 \<and> construct ref_library 3 3 = None
   \<and> annihilates_constants ref_library grad smooth 3 3
   \<and> cascade ref_library (srcIterRange (pos 0 0) (pos 3 3) (\<lambda>x y. 5)) 3 3 grad smooth
       = Inr (zero_fields 3 3)
   \<and> fst (gradientEnergyTensor ref_library (pos 0 0) (pos 3 3) (\<lambda>x y. 5) (pos 10 20)
            (sample_dest 3) grad smooth) = None
   \<and> comp (snd (gradientEnergyTensor ref_library (pos 0 0) (pos 3 3) (\<lambda>x y. 5) (pos 10 20)
            (sample_dest 3) grad smooth)) 11 21 1 = 0"
proof -
  have b: "bands (sample_dest 3) = 3" by (simp add: sample_dest_def)
  have c: "construct ref_library 3 3 = None" by (simp add: ref_library_def)
  have a: "annihilates_constants ref_library grad smooth 3 3"
    by (rule ref_annihilates) simp_all
  have s: "\<forall>x \<in> {0 ..< 3::int}. \<forall>y \<in> {0 ..< 3::int}.
             (\<lambda>x y. 5::real) (px (pos 0 0) + x) (py (pos 0 0) + y) = 5"
    by simp
  note t = constant_input[OF sample_window(1)[symmetric] sample_window(2)[symmetric] b c s a,
      of "pos 10 20"]
  have i: "in_region (pos 10 20) 3 3 11 21 \<and> (1::nat) < 3"
    by (simp add: in_region_def pos_def)
  show ?thesis using b c a t i by blast
qed

text \<open>
  C7: the result depends on the source only through the samples of the region; the
  assembly run again on the same fields and on its own output changes nothing;
  and so does the whole call run again on the destination it left.
\<close>

theorem deterministic_and_idempotent:
  "((\<forall>x \<in> {0 ..< px slr - px sul}. \<forall>y \<in> {0 ..< py slr - py sul}.
        src (px sul + x) (py sul + y) = src' (px sul + x) (py sul + y)) \<longrightarrow>
      gradientEnergyTensor lib sul slr src dul dest D S
        = gradientEnergyTensor lib sul slr src' dul dest D S)
   \<and> outer_loop F w h 0 dul 0 (outer_loop F w h 0 dul 0 dest) = outer_loop F w h 0 dul 0 dest
   \<and> gradientEnergyTensor lib sul slr src dul
        (snd (gradientEnergyTensor lib sul slr src dul dest D S)) D S
      = gradientEnergyTensor lib sul slr src dul dest D S"
proof (intro conjI impI)
  assume "\<forall>x \<in> {0 ..< px slr - px sul}. \<forall>y \<in> {0 ..< py slr - py sul}.
        src (px sul + x) (py sul + y) = src' (px sul + x) (py sul + y)"
  then have "srcIterRange sul slr src = srcIterRange sul slr src'"
    by (intro srcIterRange_cong) simp
  then show "gradientEnergyTensor lib sul slr src dul dest D S
        = gradientEnergyTensor lib sul slr src' dul dest D S"
    unfolding gradientEnergyTensor_def by (simp only:)
next
  show "outer_loop F w h 0 dul 0 (outer_loop F w h 0 dul 0 dest) = outer_loop F w h 0 dul 0 dest"
    by (rule assembly_idempotent)
next
  let ?r = "gradientEnergyTensor lib sul slr src dul dest D S"
  show "gradientEnergyTensor lib sul slr src dul (snd ?r) D S = ?r"
  proof (cases "bands dest = 3")
    case False
    then show ?thesis by (simp add: gradientEnergyTensor_bands)
  next
    case True
    from gradientEnergyTensor_cases[OF True, of lib sul slr src dul D S]
    consider (raised) e where "?r = (Some (Propagated e), dest)"
      | (returned) F where "construct lib (px slr - px sul) (py slr - py sul) = None"
          "cascade lib (srcIterRange sul slr src) (px slr - px sul) (py slr - py sul) D S = Inr F"
          "?r = (None, outer_loop F (px slr - px sul) (py slr - py sul) 0 dul 0 dest)"
      by blast
    then show ?thesis
    proof cases
      case raised
      then show ?thesis by simp
    next
      case returned
      have b: "bands (outer_loop F (px slr - px sul) (py slr - py sul) 0 dul 0 dest) = 3"
        using True by (simp add: outer_loop_bands)
      show ?thesis
        unfolding returned(3) snd_conv
        by (simp only: gradientEnergyTensor_cascade_Inr[OF b returned(1,2)] assembly_idempotent)
    qed
  qed
qed

theorem deterministic_and_idempotent_witness:
  "gradientEnergyTensor ref_library (pos 0 0) (pos 3 3) sample_src_padded (pos 10 20)
     (sample_dest 3) grad smooth = (None, sample_out)
   \<and> sample_src_padded 3 3 \<noteq> sample_src 3 3
   \<and> gradientEnergyTensor ref_library (pos 0 0) (pos 3 3) sample_src (pos 10 20)
        sample_out grad smooth = (None, sample_out)"
proof -
  note t = deterministic_and_idempotent[of "pos 3 3" "pos 0 0" sample_src sample_src_padded
      ref_library "pos 10 20" "sample_dest 3" grad smooth]
  have "\<forall>x \<in> {0 ..< px (pos 3 3) - px (pos 0 0)}. \<forall>y \<in> {0 ..< py (pos 3 3) - py (pos 0 0)}.
        sample_src (px (pos 0 0) + x) (py (pos 0 0) + y)
          = sample_src_padded (px (pos 0 0) + x) (py (pos 0 0) + y)"
    by (simp add: sample_src_padded_def pos_def)
  then have "gradientEnergyTensor ref_library (pos 0 0) (pos 3 3) sample_src (pos 10 20)
        (sample_dest 3) grad smooth
      = gradientEnergyTensor ref_library (pos 0 0) (pos 3 3) sample_src_padded (pos 10 20)
        (sample_dest 3) grad smooth"
    using t by blast
  then have a: "gradientEnergyTensor ref_library (pos 0 0) (pos 3 3) sample_src_padded (pos 10 20)
     (sample_dest 3) grad smooth = (None, sample_out)"
    using sample_call by simp
  have "gradientEnergyTensor ref_library (pos 0 0) (pos 3 3) sample_src (pos 10 20)
        (snd (gradientEnergyTensor ref_library (pos 0 0) (pos 3 3) sample_src (pos 10 20)
               (sample_dest 3) grad smooth)) grad smooth
      = gradientEnergyTensor ref_library (pos 0 0) (pos 3 3) sample_src (pos 10 20)
               (sample_dest 3) grad smooth"
    using t by blast
  then have b: "gradientEnergyTensor ref_library (pos 0 0) (pos 3 3) sample_src (pos 10 20)
        sample_out grad smooth = (None, sample_out)"
    by (simp add: sample_call)
  have c: "sample_src_padded 3 3 \<noteq> sample_src 3 3"
    by (simp add: sample_src_padded_def sample_src_def)
  show ?thesis using a b c by blast
qed

text \<open>
  C8: with three bands, the images constructed and the cascade returned, the call
  returns: the assembly always completes, and it leaves in all three bands of
  every pixel of the region the value of the formula, which is defined for all
  values of the fields.
\<close>

theorem assembly_completes:
  assumes "w = px slr - px sul" and "h = py slr - py sul"
    and "bands dest = 3" and "construct lib w h = None"
    and "cascade lib (srcIterRange sul slr src) w h D S = Inr F"
  shows "fst (gradientEnergyTensor lib sul slr src dul dest D S) = None
       \<and> bands (snd (gradientEnergyTensor lib sul slr src dul dest D S)) = 3
       \<and> (\<forall>X Y k. in_region dul w h X Y \<and> k < 3 \<longrightarrow>
             comp (snd (gradientEnergyTensor lib sul slr src dul dest D S)) X Y k
               = tensor F (nat ((Y - py dul) * w + (X - px dul))) k)
       \<and> (\<forall>i. tensor F i 0 = sq (data (gxx F) ! i) + sq (data (gxy F) ! i)
                                - data (gx F) ! i * data (gx3 F) ! i
              \<and> tensor F i 1 = - data (gxy F) ! i * (data (gxx F) ! i + data (gyy F) ! i)
                                + 0.5 * (data (gx F) ! i * data (gy3 F) ! i
                                         + data (gy F) ! i * data (gx3 F) ! i)
              \<and> tensor F i 2 = sq (data (gxy F) ! i) + sq (data (gyy F) ! i)
                                - data (gy F) ! i * data (gy3 F) ! i)"
proof -
  have r: "gradientEnergyTensor lib sul slr src dul dest D S
           = (None, outer_loop F w h 0 dul 0 dest)"
    using gradientEnergyTensor_cascade_Inr[of dest lib slr sul src D S F dul] assms by simp
  show ?thesis
    unfolding r
    by (simp add: outer_loop_bands assms(3) assembly_comp tensor_def t11_def t12_def t22_def)
qed

theorem assembly_completes_witness:
  "bands (sample_dest 3) = 3 \<and> construct ref_library 3 3 = None
   \<and> fst (gradientEnergyTensor ref_library (pos 0 0) (pos 3 3) sample_src
            (pos 10 20) (sample_dest 3) grad smooth) = None
   \<and> bands sample_out = 3
   \<and> comp sample_out 10 20 0 = tensor sample_fields 0 0
   \<and> tensor sample_fields 0 0 = 75525 / 1024"
proof -
  have b: "bands (sample_dest 3) = 3" by (simp add: sample_dest_def)
  have c: "construct ref_library 3 3 = None" by (simp add: ref_library_def)
  note t = assembly_completes[OF sample_window(1)[symmetric] sample_window(2)[symmetric]
      b c sample_cascade, of "pos 10 20"]
  have i: "in_region (pos 10 20) 3 3 10 20 \<and> (0::nat) < 3"
    by (simp add: in_region_def pos_def)
  have "comp (snd (gradientEnergyTensor ref_library (pos 0 0) (pos 3 3) sample_src
            (pos 10 20) (sample_dest 3) grad smooth)) 10 20 0
        = tensor sample_fields (nat ((20 - py (pos 10 20)) * 3 + (10 - px (pos 10 20)))) 0"
    using t i by blast
  then have a: "comp sample_out 10 20 0 = tensor sample_fields 0 0"
    by (simp add: pos_def sample_out_def)
  have "tensor sample_fields 0 0
        = sq (data (gxx sample_fields) ! 0) + sq (data (gxy sample_fields) ! 0)
          - data (gx sample_fields) ! 0 * data (gx3 sample_fields) ! 0"
    using t by blast
  then have v: "tensor sample_fields 0 0 = 75525 / 1024"
    by (simp add: sample_fields_def sq_def)
  have "fst (gradientEnergyTensor ref_library (pos 0 0) (pos 3 3) sample_src
            (pos 10 20) (sample_dest 3) grad smooth) = None"
       "bands sample_out = 3"
    using t by (simp_all add: sample_out_def)
  then show ?thesis using b c a v by blast
qed

text \<open>
  C9: the overload on argument objects forwards the members of the triple and of
  the pair; its result and what it raises are those of the explicit overload.
\<close>

theorem argument_object_overload:
  "gradientEnergyTensor_args lib \<lparr>first = sul, second = slr, third = src\<rparr> (dul, dest) D S
     = gradientEnergyTensor lib sul slr src dul dest D S"
  by (simp add: gradientEnergyTensor_args_def)

theorem argument_object_overload_witness:
  "gradientEnergyTensor_args ref_library
     \<lparr>first = pos 0 0, second = pos 3 3, third = sample_src\<rparr>
     (pos 10 20, sample_dest 3) grad smooth = (None, sample_out)
   \<and> gradientEnergyTensor_args ref_library
     \<lparr>first = pos 0 0, second = pos 3 3, third = sample_src\<rparr>
     (pos 10 20, sample_dest 2) grad smooth
     = (Some (PreconditionViolation three_bands_message), sample_dest 2)"
proof -
  have "bands (sample_dest 2) \<noteq> 3" by (simp add: sample_dest_def)
  then have "gradientEnergyTensor ref_library (pos 0 0) (pos 3 3) sample_src (pos 10 20)
               (sample_dest 2) grad smooth
             = (Some (PreconditionViolation three_bands_message), sample_dest 2)"
    unfolding three_bands_message_def by (rule gradientEnergyTensor_bands)
  then show ?thesis
    using sample_call
      argument_object_overload[of ref_library "pos 0 0" "pos 3 3" sample_src "pos 10 20"
        "sample_dest 3" grad smooth]
      argument_object_overload[of ref_library "pos 0 0" "pos 3 3" sample_src "pos 10 20"
        "sample_dest 2" grad smooth]
    by simp
qed

text \<open>
  C10, as stated, fails: on a region of width 0 and a destination of three bands
  the call raises what the convolution of the reference library raises.
\<close>

theorem empty_region_counterexample:
  "bands (sample_dest 3) = 3 \<and> px (pos 0 3) \<le> px (pos 0 0)
   \<and> fst (gradientEnergyTensor ref_library (pos 0 0) (pos 0 3) sample_src (pos 10 20)
            (sample_dest 3) grad smooth) \<noteq> None"
  by (simp add: empty_region_fails) (simp add: sample_dest_def pos_def)

text \<open>
  C10, amended: on an empty region and a destination of three bands the call leaves
  every pixel of the destination as it was, whether it returns or raises. It
  returns when the constructor and the cascade of convolutions do; otherwise it
  passes on what they raised.
\<close>

theorem empty_region:
  assumes "bands dest = 3" and "px slr \<le> px sul \<or> py slr \<le> py sul"
  shows "snd (gradientEnergyTensor lib sul slr src dul dest D S) = dest
       \<and> (fst (gradientEnergyTensor lib sul slr src dul dest D S) = None \<longleftrightarrow>
            construct lib (px slr - px sul) (py slr - py sul) = None
            \<and> (\<exists>F. cascade lib (srcIterRange sul slr src) (px slr - px sul) (py slr - py sul)
                       D S = Inr F))
       \<and> (\<forall>e. fst (gradientEnergyTensor lib sul slr src dul dest D S) = Some e \<longrightarrow>
              (\<exists>e'. e = Propagated e'))"
proof -
  let ?r = "gradientEnergyTensor lib sul slr src dul dest D S"
  let ?w = "px slr - px sul" and ?h = "py slr - py sul"
  have e: "?w \<le> 0 \<or> ?h \<le> 0" using assms(2) by auto
  from gradientEnergyTensor_cases[OF assms(1), of lib sul slr src dul D S]
  consider (raised) e where "?r = (Some (Propagated e), dest)"
    | (returned) F where "construct lib ?w ?h = None"
        "cascade lib (srcIterRange sul slr src) ?w ?h D S = Inr F"
        "?r = (None, outer_loop F ?w ?h 0 dul 0 dest)"
    by blast
  then show ?thesis
  proof cases
    case raised
    have "\<not> (construct lib ?w ?h = None
              \<and> (\<exists>F. cascade lib (srcIterRange sul slr src) ?w ?h D S = Inr F))"
    proof
      assume "construct lib ?w ?h = None
              \<and> (\<exists>F. cascade lib (srcIterRange sul slr src) ?w ?h D S = Inr F)"
      then obtain F where "construct lib ?w ?h = None"
        "cascade lib (srcIterRange sul slr src) ?w ?h D S = Inr F" by blast
      from gradientEnergyTensor_cascade_Inr[OF assms(1) this, of dul]
      show False using raised by simp
    qed
    then show ?thesis using raised by simp
  next
    case returned
    then show ?thesis by (simp add: assembly_empty[OF e])
  qed
qed

theorem empty_region_witness:
  "bands (sample_dest 3) = 3 \<and> px (pos 0 3) \<le> px (pos 0 0)
   \<and> snd (gradientEnergyTensor ref_library (pos 0 0) (pos 0 3) sample_src (pos 10 20)
            (sample_dest 3) grad smooth) = sample_dest 3
   \<and> gradientEnergyTensor scaling_library (pos 0 0) (pos 0 3) sample_src (pos 10 20)
        (sample_dest 3) 1 1 = (None, sample_dest 3)"
proof -
  have b: "bands (sample_dest 3) = 3" by (simp add: sample_dest_def)
  have e: "px (pos 0 3) \<le> px (pos 0 0) \<or> py (pos 0 3) \<le> py (pos 0 0)"
    by (simp add: pos_def)
  note t1 = empty_region[OF b e, of ref_library sample_src "pos 10 20" grad smooth]
  note t2 = empty_region[OF b e, of scaling_library sample_src "pos 10 20" 1 1]
  have c: "construct scaling_library (px (pos 0 3) - px (pos 0 0)) (py (pos 0 3) - py (pos 0 0))
           = None"
    by (simp add: scaling_library_def)
  have "fst (gradientEnergyTensor scaling_library (pos 0 0) (pos 0 3) sample_src (pos 10 20)
        (sample_dest 3) 1 1) = None"
    using t2 c scaling_cascade by blast
  moreover have "snd (gradientEnergyTensor scaling_library (pos 0 0) (pos 0 3) sample_src
        (pos 10 20) (sample_dest 3) 1 1) = sample_dest 3"
    using t2 by blast
  ultimately have "gradientEnergyTensor scaling_library (pos 0 0) (pos 0 3) sample_src (pos 10 20)
        (sample_dest 3) 1 1 = (None, sample_dest 3)"
    by (simp add: prod_eq_iff)
  moreover have "px (pos 0 3) \<le> px (pos 0 0)" by (simp add: pos_def)
  ultimately show ?thesis using b t1 by blast
qed

end
